theory Spec2Isabelle
  imports Complex_Main "HOL-Library.Finite_Map"
begin

section \<open>Data model\<close>

text \<open>
  Identifiers are UUIDs; only equality, the zero value \<open>uuid.Nil\<close> and the order used by
  \<open>ORDER BY id\<close> matter, so a UUID is a natural number and \<open>uuid.Nil\<close> is \<open>0\<close>.
  A timestamp is a count of microseconds (the resolution of the database's
  \<open>TIMESTAMP\<close>). Message content is a Go string that the code reads as \<open>[]rune\<close>:
  it is a list of Unicode code points. Strings that the code only compares with ASCII
  literals (message type, conversation type, role) are \<open>string\<close>.
\<close>

type_synonym uuid = nat
type_synonym timestamp = int
type_synonym rune = nat

definition uuid_Nil :: uuid where
  "uuid_Nil = 0"

definition runes :: "string \<Rightarrow> rune list" where
  "runes s = map of_char s"

text \<open>model/conversation.go: \<open>Conversation\<close> and \<open>ConversationMember\<close>.\<close>

record conversation =
  c_id :: uuid
  conversation_type :: string
  group_name :: "rune list option"
  c_created_at :: timestamp
  c_updated_at :: timestamp
  last_message_at :: "timestamp option"
  last_message_id :: "uuid option"

record conversation_member =
  m_id :: uuid
  m_conversation_id :: uuid
  m_user_id :: uuid
  m_role :: string
  is_muted :: bool
  is_hidden :: bool
  joined_at :: timestamp
  left_at :: "timestamp option"
  unread_count :: int
  last_read_message_id :: "uuid option"
  last_read_at :: "timestamp option"

text \<open>
  A JSON value of the metadata bag (\<open>map[string]interface{}\<close>). A JSON number is decoded
  to a float64, whose value is a rational number.
\<close>

datatype jvalue = JNum rat | JStr string | JBool bool | JNull | JOther

type_synonym metadata = "(string \<times> jvalue) list"

text \<open>model/message.go: \<open>Message\<close>.\<close>

record message =
  msg_id :: uuid
  msg_conversation_id :: uuid
  sender_id :: uuid
  message_type :: string
  content :: "rune list option"
  msg_metadata :: "metadata option"
  status :: string
  reply_to_message_id :: "uuid option"
  is_recalled :: bool
  recalled_at :: "timestamp option"
  msg_created_at :: timestamp

record user_relationship =
  r_id :: uuid
  r_user_id :: uuid
  r_target_user_id :: uuid
  relationship_type :: string

text \<open>The four tables the message and conversation services touch (sql/init.sql).\<close>

record db =
  conversations :: "conversation list"
  conversation_members :: "conversation_member list"
  messages :: "message list"
  user_relationships :: "user_relationship list"

text \<open>
  What an operation takes from outside the database: the clock, the identifiers that
  \<open>gen_random_uuid()\<close> yields (the k-th one generated by the operation), and the outcome
  of each \<open>SETNX\<close> attempt on the two Redis locks (\<open>True\<close> when the call returned no
  error and set the key).
\<close>

record env =
  now :: timestamp
  gen_id :: "nat \<Rightarrow> uuid"
  conv_lock :: "nat \<Rightarrow> bool"
  send_lock :: "nat \<Rightarrow> bool"

text \<open>Every error return of the modelled functions, one constructor per message.\<close>

datatype error =
    ContentRequired
  | FailedToGetConversation error
  | ConversationIdRequired
  | NotAMember
  | BlockedByUser
  | VideoTooLarge
  | SendLockFailed
  | FirstMessageLimit
  | FailedToSaveMessage
  | FailedToUpdateMember
  | CannotSendToYourself
  | CreateLockFailed
  | ConstraintViolation
  | FailedToCreateConversation
  | MessageNotFound
  | NotYourMessage
  | AlreadyRecalled
  | RecallWindowExpired

section \<open>Queries and writes on the tables\<close>

text \<open>
  The schema (sql/init.sql) rejects a row that repeats a primary key, that repeats the
  pair \<open>(conversation_id, user_id)\<close> of \<open>conversation_members\<close>, whose
  \<open>conversation_id\<close> names no conversation, or whose \<open>VARCHAR(n)\<close> column holds more
  than \<open>n\<close> characters. \<open>Create\<close> then returns an error: the insert functions return
  \<open>None\<close>.
\<close>

definition find_message :: "db \<Rightarrow> uuid \<Rightarrow> message option" where
  "find_message d i = List.find (\<lambda>m. msg_id m = i) (messages d)"

definition find_conversation :: "db \<Rightarrow> uuid \<Rightarrow> conversation option" where
  "find_conversation d i = List.find (\<lambda>c. c_id c = i) (conversations d)"

definition conversation_exists :: "db \<Rightarrow> uuid \<Rightarrow> bool" where
  "conversation_exists d i = list_ex (\<lambda>c. c_id c = i) (conversations d)"

definition name_fits :: "rune list option \<Rightarrow> bool" where
  "name_fits n = (case n of None \<Rightarrow> True | Some s \<Rightarrow> length s \<le> 100)"

definition insert_conversation :: "db \<Rightarrow> conversation \<Rightarrow> db option" where
  "insert_conversation d c =
     (if conversation_exists d (c_id c) \<or> length (conversation_type c) > 20
         \<or> \<not> name_fits (group_name c)
      then None
      else Some (d\<lparr>conversations := conversations d @ [c]\<rparr>))"

definition member_row_exists :: "db \<Rightarrow> uuid \<Rightarrow> uuid \<Rightarrow> bool" where
  "member_row_exists d conv u =
     list_ex (\<lambda>m. m_conversation_id m = conv \<and> m_user_id m = u) (conversation_members d)"

definition insert_member :: "db \<Rightarrow> conversation_member \<Rightarrow> db option" where
  "insert_member d m =
     (if list_ex (\<lambda>m'. m_id m' = m_id m) (conversation_members d)
         \<or> member_row_exists d (m_conversation_id m) (m_user_id m)
         \<or> \<not> conversation_exists d (m_conversation_id m)
         \<or> length (m_role m) > 20
      then None
      else Some (d\<lparr>conversation_members := conversation_members d @ [m]\<rparr>))"

definition insert_message :: "db \<Rightarrow> message \<Rightarrow> db option" where
  "insert_message d m =
     (if list_ex (\<lambda>m'. msg_id m' = msg_id m) (messages d)
         \<or> \<not> conversation_exists d (msg_conversation_id m)
         \<or> length (message_type m) > 20 \<or> length (status m) > 20
      then None
      else Some (d\<lparr>messages := messages d @ [m]\<rparr>))"

text \<open>A member row as \<open>tx.Create\<close> writes it: the columns not given take their defaults.\<close>

definition new_member :: "uuid \<Rightarrow> uuid \<Rightarrow> uuid \<Rightarrow> string \<Rightarrow> timestamp \<Rightarrow> conversation_member" where
  "new_member i conv u r t =
     \<lparr>m_id = i, m_conversation_id = conv, m_user_id = u, m_role = r, is_muted = False,
      is_hidden = False, joined_at = t, left_at = None, unread_count = 0,
      last_read_message_id = None, last_read_at = None\<rparr>"

definition new_conversation :: "uuid \<Rightarrow> string \<Rightarrow> rune list option \<Rightarrow> timestamp \<Rightarrow> conversation" where
  "new_conversation i ty n t =
     \<lparr>c_id = i, conversation_type = ty, group_name = n, c_created_at = t, c_updated_at = t,
      last_message_at = None, last_message_id = None\<rparr>"

text \<open>The loop \<open>for i := 0; i < n; i++ { SetNX ... }\<close>: some attempt below \<open>n\<close> succeeds.\<close>

definition lock_acquired :: "(nat \<Rightarrow> bool) \<Rightarrow> nat \<Rightarrow> bool" where
  "lock_acquired attempt n = list_ex attempt [0..<n]"

section \<open>SystemSettingsService\<close>

type_synonym settings = "string \<rightharpoonup> string"

definition GetBoolSetting :: "settings \<Rightarrow> string \<Rightarrow> bool \<Rightarrow> bool" where
  "GetBoolSetting cache key defaultValue =
     (case cache key of None \<Rightarrow> defaultValue | Some v \<Rightarrow> v = ''true'')"

definition IsFeatureEnabled :: "settings \<Rightarrow> string \<Rightarrow> bool" where
  "IsFeatureEnabled cache featureKey = GetBoolSetting cache featureKey False"

section \<open>MessageService\<close>

text \<open>
  The service's fields. \<open>hubChecker\<close> is the \<open>OnlineChecker\<close> interface (its method
  \<open>IsUserInConversation\<close>), \<open>None\<close> while it is nil; the two notifier interfaces only
  receive calls, so the record keeps whether they are set.
\<close>

record message_service =
  settingsCache :: settings
  maxVideoSizeMB :: int
  hubChecker :: "(uuid \<Rightarrow> uuid \<Rightarrow> bool) option"
  unreadNotifier :: bool
  convNotifier :: bool

record SendMessageRequest =
  ConversationID :: uuid
  ReceiverID :: "uuid option"
  MessageType :: string
  Content :: "rune list option"
  Metadata :: "metadata option"
  ReplyToMessageID :: "uuid option"

text \<open>What the service sends out after the database write.\<close>

datatype effect =
    OfflinePush uuid message
  | ConversationUpdate uuid uuid timestamp "rune list option" int
  | UnreadCountUpdate uuid uuid int

subsection \<open>getOrCreatePrivateConversation\<close>

definition active_member_count :: "db \<Rightarrow> uuid \<Rightarrow> nat" where
  "active_member_count d conv =
     length (filter (\<lambda>m. m_conversation_id m = conv \<and> left_at m = None)
       (conversation_members d))"

definition private_match :: "db \<Rightarrow> uuid \<Rightarrow> uuid \<Rightarrow> conversation \<Rightarrow> bool" where
  "private_match d user1ID user2ID c =
     (member_row_exists d (c_id c) user1ID \<and> member_row_exists d (c_id c) user2ID
      \<and> conversation_type c = ''private'' \<and> active_member_count d (c_id c) = 2)"

text \<open>\<open>First\<close> orders by the primary key and takes one row.\<close>

definition find_private_conversation :: "db \<Rightarrow> uuid \<Rightarrow> uuid \<Rightarrow> conversation option" where
  "find_private_conversation d user1ID user2ID =
     (case sort_key c_id (filter (private_match d user1ID user2ID) (conversations d)) of
        [] \<Rightarrow> None
      | c # _ \<Rightarrow> Some c)"

definition createPrivateConversation ::
  "env \<Rightarrow> db \<Rightarrow> uuid \<Rightarrow> uuid \<Rightarrow> (error + uuid \<times> bool) \<times> db" where
  "createPrivateConversation e d user1ID user2ID =
     (let conversationID = gen_id e 0 in
      case insert_conversation d (new_conversation conversationID ''private'' None (now e)) of
        None \<Rightarrow> (Inl ConstraintViolation, d)
      | Some d1 \<Rightarrow>
         (case insert_member d1 (new_member (gen_id e 1) conversationID user1ID ''member'' (now e)) of
            None \<Rightarrow> (Inl ConstraintViolation, d)
          | Some d2 \<Rightarrow>
             (case insert_member d2 (new_member (gen_id e 2) conversationID user2ID ''member'' (now e)) of
                None \<Rightarrow> (Inl ConstraintViolation, d)
              | Some d3 \<Rightarrow> (Inr (conversationID, True), d3))))"

definition getOrCreatePrivateConversation ::
  "env \<Rightarrow> db \<Rightarrow> uuid \<Rightarrow> uuid \<Rightarrow> (error + uuid \<times> bool) \<times> db" where
  "getOrCreatePrivateConversation e d user1ID user2ID =
     (if user1ID = user2ID then (Inl CannotSendToYourself, d)
      else case find_private_conversation d user1ID user2ID of
        Some c \<Rightarrow> (Inr (c_id c, False), d)
      | None \<Rightarrow>
          if \<not> lock_acquired (conv_lock e) 30 then (Inl CreateLockFailed, d)
          else (case find_private_conversation d user1ID user2ID of
                  Some c \<Rightarrow> (Inr (c_id c, False), d)
                | None \<Rightarrow> createPrivateConversation e d user1ID user2ID))"

subsection \<open>isConversationMember, isBlocked, CheckCanSend\<close>

definition isConversationMember :: "db \<Rightarrow> uuid \<Rightarrow> uuid \<Rightarrow> bool" where
  "isConversationMember d conversationID userID =
     list_ex (\<lambda>m. m_conversation_id m = conversationID \<and> m_user_id m = userID \<and> left_at m = None)
       (conversation_members d)"

definition isBlocked :: "db \<Rightarrow> uuid \<Rightarrow> uuid \<Rightarrow> bool" where
  "isBlocked d senderID receiverID =
     list_ex (\<lambda>r. r_user_id r = receiverID \<and> r_target_user_id r = senderID
                  \<and> relationship_type r = ''blocked'')
       (user_relationships d)"

definition userMessageCount :: "db \<Rightarrow> uuid \<Rightarrow> uuid \<Rightarrow> nat" where
  "userMessageCount d conversationID userID =
     length (filter (\<lambda>m. msg_conversation_id m = conversationID \<and> sender_id m = userID)
       (messages d))"

definition otherUserMessageCount :: "db \<Rightarrow> uuid \<Rightarrow> uuid \<Rightarrow> nat" where
  "otherUserMessageCount d conversationID userID =
     length (filter (\<lambda>m. msg_conversation_id m = conversationID \<and> sender_id m \<noteq> userID)
       (messages d))"

definition CheckCanSend :: "message_service \<Rightarrow> db \<Rightarrow> uuid \<Rightarrow> uuid \<Rightarrow> bool" where
  "CheckCanSend s d userID conversationID =
     (if \<not> IsFeatureEnabled (settingsCache s) ''enable_first_message_limit'' then True
      else case find_conversation d conversationID of
        None \<Rightarrow> True
      | Some c \<Rightarrow>
          if conversation_type c \<noteq> ''private'' then True
          else if userMessageCount d conversationID userID = 0 then True
          else if otherUserMessageCount d conversationID userID > 0 then True
          else False)"

subsection \<open>SendMessage\<close>

text \<open>Step 4: the video size check, on the \<open>file_size\<close> entry when it is a number.\<close>

definition video_too_large :: "message_service \<Rightarrow> SendMessageRequest \<Rightarrow> bool" where
  "video_too_large s req =
     (MessageType req = ''video'' \<and>
      (case Metadata req of
         None \<Rightarrow> False
       | Some md \<Rightarrow>
          (case map_of md ''file_size'' of
             Some (JNum fileSize) \<Rightarrow> fileSize / (1024 * 1024) > of_int (maxVideoSizeMB s)
           | _ \<Rightarrow> False)))"

text \<open>
  Step 5: the first-message gate. With the feature on, the lock is taken (three
  attempts) and \<open>CheckCanSend\<close> is asked inside it; otherwise \<open>CheckCanSend\<close> is still
  asked. \<open>None\<close> lets the send continue.
\<close>

definition first_message_gate ::
  "message_service \<Rightarrow> env \<Rightarrow> db \<Rightarrow> uuid \<Rightarrow> uuid \<Rightarrow> bool \<Rightarrow> error option" where
  "first_message_gate s e d senderID conversationID conversationJustCreated =
     (if \<not> conversationJustCreated
         \<and> IsFeatureEnabled (settingsCache s) ''enable_first_message_limit''
      then (if \<not> lock_acquired (send_lock e) 3 then Some SendLockFailed
            else if \<not> CheckCanSend s d senderID conversationID then Some FirstMessageLimit
            else None)
      else if \<not> conversationJustCreated \<and> \<not> CheckCanSend s d senderID conversationID
        then Some FirstMessageLimit
      else None)"

text \<open>
  Step 7: the member rows of the conversation other than the sender's (the query has no
  condition on \<open>left_at\<close>), and the viewing snapshot \<open>memberViewingStatus\<close>, a Go map
  filled in the order of the rows: a later write to a key replaces an earlier one, and
  a missing key reads as \<open>false\<close>.
\<close>

definition other_members :: "db \<Rightarrow> uuid \<Rightarrow> uuid \<Rightarrow> conversation_member list" where
  "other_members d conversationID senderID =
     filter (\<lambda>m. m_conversation_id m = conversationID \<and> m_user_id m \<noteq> senderID)
       (conversation_members d)"

definition isViewing_now :: "message_service \<Rightarrow> uuid \<Rightarrow> uuid \<Rightarrow> bool" where
  "isViewing_now s conversationID userID =
     (case hubChecker s of None \<Rightarrow> False | Some f \<Rightarrow> f userID conversationID)"

definition memberViewingStatus ::
  "message_service \<Rightarrow> uuid \<Rightarrow> conversation_member list \<Rightarrow> (uuid \<rightharpoonup> bool)" where
  "memberViewingStatus s conversationID members =
     map_of (rev (map (\<lambda>m. (m_user_id m, isViewing_now s conversationID (m_user_id m))) members))"

definition snapshot_viewing :: "(uuid \<rightharpoonup> bool) \<Rightarrow> uuid \<Rightarrow> bool" where
  "snapshot_viewing snap userID = (case snap userID of None \<Rightarrow> False | Some b \<Rightarrow> b)"

text \<open>
  Step 8.3, one iteration: the \<open>UPDATE\<close> of the rows of one user in the conversation.
  \<open>unread_count\<close> is a 4-byte \<open>INT\<close>: the database refuses \<open>unread_count + 1\<close> beyond
  \<open>2147483647\<close> and the statement fails.
\<close>

definition member_update_row :: "uuid \<Rightarrow> uuid \<Rightarrow> bool \<Rightarrow> conversation_member \<Rightarrow> conversation_member" where
  "member_update_row conversationID userID isViewing m =
     (if m_conversation_id m = conversationID \<and> m_user_id m = userID
      then (if isViewing then m\<lparr>is_hidden := False\<rparr>
            else m\<lparr>is_hidden := False, unread_count := unread_count m + 1\<rparr>)
      else m)"

definition update_member :: "uuid \<Rightarrow> uuid \<Rightarrow> bool \<Rightarrow> conversation_member list \<Rightarrow> conversation_member list option" where
  "update_member conversationID userID isViewing rows =
     (if \<not> isViewing \<and>
         list_ex (\<lambda>m. m_conversation_id m = conversationID \<and> m_user_id m = userID
                      \<and> unread_count m + 1 > 2147483647) rows
      then None
      else Some (map (member_update_row conversationID userID isViewing) rows))"

fun update_members ::
  "uuid \<Rightarrow> (uuid \<rightharpoonup> bool) \<Rightarrow> conversation_member list \<Rightarrow> conversation_member list
     \<Rightarrow> conversation_member list option" where
  "update_members conversationID snap [] rows = Some rows"
| "update_members conversationID snap (member # members) rows =
     (case update_member conversationID (m_user_id member)
             (snapshot_viewing snap (m_user_id member)) rows of
        None \<Rightarrow> None
      | Some rows' \<Rightarrow> update_members conversationID snap members rows')"

definition set_last_message :: "uuid \<Rightarrow> timestamp \<Rightarrow> uuid \<Rightarrow> conversation \<Rightarrow> conversation" where
  "set_last_message conversationID t messageID c =
     (if c_id c = conversationID
      then c\<lparr>last_message_at := Some t, last_message_id := Some messageID, c_updated_at := t\<rparr>
      else c)"

text \<open>
  Step 8: the transaction. On an error it is rolled back: the caller keeps the database
  it had.
\<close>

definition send_transaction ::
  "db \<Rightarrow> timestamp \<Rightarrow> message \<Rightarrow> (uuid \<rightharpoonup> bool) \<Rightarrow> conversation_member list \<Rightarrow> error + db" where
  "send_transaction d t msg snap members =
     (case insert_message d msg of
        None \<Rightarrow> Inl FailedToSaveMessage
      | Some d1 \<Rightarrow>
         (let d2 = d1\<lparr>conversations :=
                    map (set_last_message (msg_conversation_id msg) t (msg_id msg)) (conversations d1)\<rparr>
          in case update_members (msg_conversation_id msg) snap members (conversation_members d2) of
               None \<Rightarrow> Inl FailedToUpdateMember
             | Some rows \<Rightarrow> Inr (d2\<lparr>conversation_members := rows\<rparr>)))"

text \<open>Step 9: the preview text. The three placeholders are the code's string literals.\<close>

definition preview_image :: "rune list" where
  "preview_image = [0x5B, 0x56FE, 0x7247, 0x5D]"

definition preview_video :: "rune list" where
  "preview_video = [0x5B, 0x89C6, 0x9891, 0x5D]"

definition preview_emoji :: "rune list" where
  "preview_emoji = [0x5B, 0x8868, 0x60C5, 0x5D]"

definition lastMessageText :: "message \<Rightarrow> rune list option" where
  "lastMessageText msg =
     (if message_type msg = ''text'' \<and> content msg \<noteq> None then
        (case content msg of
           None \<Rightarrow> None
         | Some text \<Rightarrow> Some (if length text > 50 then take 50 text @ runes ''...'' else text))
      else if message_type msg = ''image'' then Some preview_image
      else if message_type msg = ''video'' then Some preview_video
      else if message_type msg = ''emoji'' then Some preview_emoji
      else None)"

text \<open>Step 10: what is pushed for one member row of the snapshot.\<close>

definition member_fanout ::
  "message_service \<Rightarrow> uuid \<Rightarrow> message \<Rightarrow> (uuid \<rightharpoonup> bool) \<Rightarrow> conversation_member \<Rightarrow> effect list" where
  "member_fanout s senderID msg snap member =
     (let unreadCount = (if snapshot_viewing snap (m_user_id member)
                         then unread_count member else unread_count member + 1)
      in [OfflinePush (m_user_id member) msg]
         @ (if convNotifier s \<and> m_user_id member \<noteq> senderID
            then [ConversationUpdate (m_user_id member) (msg_conversation_id msg)
                    (msg_created_at msg) (lastMessageText msg) unreadCount]
            else [])
         @ (if unreadNotifier s
            then [UnreadCountUpdate (m_user_id member) (msg_conversation_id msg) unreadCount]
            else []))"

text \<open>Steps 6 to 11, once every check has passed.\<close>

definition persist_and_fanout ::
  "message_service \<Rightarrow> env \<Rightarrow> db \<Rightarrow> uuid \<Rightarrow> SendMessageRequest \<Rightarrow> uuid
     \<Rightarrow> (error + message) \<times> db \<times> effect list" where
  "persist_and_fanout s e d senderID req conversationID =
     (let msg = \<lparr>msg_id = gen_id e 3, msg_conversation_id = conversationID,
                 sender_id = senderID, message_type = MessageType req, content = Content req,
                 msg_metadata = Metadata req, status = ''sent'',
                 reply_to_message_id = ReplyToMessageID req, is_recalled = False,
                 recalled_at = None, msg_created_at = now e\<rparr>;
          members = other_members d conversationID senderID;
          snap = memberViewingStatus s conversationID members
      in case send_transaction d (now e) msg snap members of
           Inl err \<Rightarrow> (Inl err, d, [])
         | Inr d' \<Rightarrow> (Inr msg, d', concat (map (member_fanout s senderID msg snap) members)))"

text \<open>
  Step 1: with no \<open>conversation_id\<close> and a receiver, the private conversation is looked
  up or created; otherwise the request's \<open>conversation_id\<close> stands.
\<close>

definition resolve_conversation ::
  "env \<Rightarrow> db \<Rightarrow> uuid \<Rightarrow> SendMessageRequest \<Rightarrow> (error + uuid \<times> bool) \<times> db" where
  "resolve_conversation e d senderID req =
     (if ConversationID req = uuid_Nil \<and> ReceiverID req \<noteq> None
      then (case ReceiverID req of
              Some receiverID \<Rightarrow> getOrCreatePrivateConversation e d senderID receiverID
            | None \<Rightarrow> (Inr (ConversationID req, False), d))
      else (Inr (ConversationID req, False), d))"

definition SendMessage ::
  "message_service \<Rightarrow> env \<Rightarrow> db \<Rightarrow> uuid \<Rightarrow> SendMessageRequest
     \<Rightarrow> (error + message) \<times> db \<times> effect list" where
  "SendMessage s e d senderID req =
     (if MessageType req = ''text'' \<and> (Content req = None \<or> Content req = Some [])
      then (Inl ContentRequired, d, [])
      else
        (case resolve_conversation e d senderID req of
           (Inl err, d1) \<Rightarrow> (Inl (FailedToGetConversation err), d1, [])
         | (Inr (conversationID, conversationJustCreated), d1) \<Rightarrow>
             if conversationID = uuid_Nil then (Inl ConversationIdRequired, d1, [])
             else if \<not> isConversationMember d1 conversationID senderID
               then (Inl NotAMember, d1, [])
             else if (case ReceiverID req of
                        Some receiverID \<Rightarrow> isBlocked d1 senderID receiverID
                      | None \<Rightarrow> False)
               then (Inl BlockedByUser, d1, [])
             else if video_too_large s req then (Inl VideoTooLarge, d1, [])
             else (case first_message_gate s e d1 senderID conversationID conversationJustCreated of
                     Some err \<Rightarrow> (Inl err, d1, [])
                   | None \<Rightarrow> persist_and_fanout s e d1 senderID req conversationID)))"

subsection \<open>MarkAsRead\<close>

text \<open>
  The \<open>WHERE\<close> clause of the conditional \<open>UPDATE\<close>: the row of this user in this
  conversation, whose \<open>last_read_message_id\<close> is null or names no message created
  after the target.
\<close>

definition read_guard :: "db \<Rightarrow> uuid \<Rightarrow> uuid \<Rightarrow> timestamp \<Rightarrow> conversation_member \<Rightarrow> bool" where
  "read_guard d conversationID userID targetCreatedAt cm =
     (m_conversation_id cm = conversationID \<and> m_user_id cm = userID \<and>
      (last_read_message_id cm = None \<or>
       \<not> list_ex (\<lambda>m. Some (msg_id m) = last_read_message_id cm
                      \<and> msg_created_at m > targetCreatedAt) (messages d)))"

definition mark_row :: "uuid \<Rightarrow> timestamp \<Rightarrow> conversation_member \<Rightarrow> conversation_member" where
  "mark_row messageID t cm =
     cm\<lparr>unread_count := 0, last_read_message_id := Some messageID, last_read_at := Some t\<rparr>"

definition MarkAsRead ::
  "message_service \<Rightarrow> env \<Rightarrow> db \<Rightarrow> uuid \<Rightarrow> uuid \<Rightarrow> uuid \<Rightarrow> (error + unit) \<times> db \<times> effect list" where
  "MarkAsRead s e d userID conversationID messageID =
     (case find_message d messageID of
        None \<Rightarrow> (Inl MessageNotFound, d, [])
      | Some targetMessage \<Rightarrow>
         (let g = read_guard d conversationID userID (msg_created_at targetMessage);
              rowsAffected = length (filter g (conversation_members d));
              d' = d\<lparr>conversation_members :=
                      map (\<lambda>cm. if g cm then mark_row messageID (now e) cm else cm)
                        (conversation_members d)\<rparr>
          in (Inr (), d',
              if rowsAffected > 0 \<and> unreadNotifier s
              then [UnreadCountUpdate userID conversationID 0] else [])))"

section \<open>ConversationService.CreateGroupConversation\<close>

text \<open>
  The loop over \<open>memberIDs\<close>: the creator is skipped, every other entry is inserted
  with role \<open>member\<close>; the first insert that fails ends the loop with its error.
  \<open>k\<close> counts the identifiers generated so far.
\<close>

fun add_group_members ::
  "env \<Rightarrow> uuid \<Rightarrow> uuid \<Rightarrow> nat \<Rightarrow> uuid list \<Rightarrow> db \<Rightarrow> db option" where
  "add_group_members e conversationID creatorID k [] d = Some d"
| "add_group_members e conversationID creatorID k (memberID # memberIDs) d =
     (if memberID = creatorID then add_group_members e conversationID creatorID k memberIDs d
      else case insert_member d (new_member (gen_id e k) conversationID memberID ''member'' (now e)) of
             None \<Rightarrow> None
           | Some d' \<Rightarrow> add_group_members e conversationID creatorID (Suc k) memberIDs d')"

definition CreateGroupConversation ::
  "env \<Rightarrow> db \<Rightarrow> uuid \<Rightarrow> rune list \<Rightarrow> uuid list \<Rightarrow> (error + conversation) \<times> db" where
  "CreateGroupConversation e d creatorID groupName memberIDs =
     (let conv = new_conversation (gen_id e 0) ''group'' (Some groupName) (now e) in
      case insert_conversation d conv of
        None \<Rightarrow> (Inl FailedToCreateConversation, d)
      | Some d1 \<Rightarrow>
         (case insert_member d1 (new_member (gen_id e 1) (c_id conv) creatorID ''owner'' (now e)) of
            None \<Rightarrow> (Inl ConstraintViolation, d)
          | Some d2 \<Rightarrow>
             (case add_group_members e (c_id conv) creatorID 2 memberIDs d2 of
                None \<Rightarrow> (Inl ConstraintViolation, d)
              | Some d3 \<Rightarrow> (Inr conv, d3))))"

section \<open>MessageService.RecallMessage\<close>

text \<open>
  \<open>EXTRACT(EPOCH FROM (NOW() - created_at))\<close> is the elapsed time in seconds, scanned
  into a float64; the code rejects when it is \<open>> 10\<close>. With microsecond timestamps the
  comparison is \<open>now - created_at > 10 * 10^6\<close>.
\<close>

definition elapsed_micros :: "env \<Rightarrow> message \<Rightarrow> int" where
  "elapsed_micros e m = now e - msg_created_at m"

definition set_recalled :: "timestamp \<Rightarrow> uuid \<Rightarrow> message \<Rightarrow> message" where
  "set_recalled t i m =
     (if msg_id m = i then m\<lparr>is_recalled := True, recalled_at := Some t\<rparr> else m)"

definition RecallMessage :: "env \<Rightarrow> db \<Rightarrow> uuid \<Rightarrow> uuid \<Rightarrow> (error + unit) \<times> db" where
  "RecallMessage e d userID messageID =
     (case find_message d messageID of
        None \<Rightarrow> (Inl MessageNotFound, d)
      | Some m \<Rightarrow>
          if sender_id m \<noteq> userID then (Inl NotYourMessage, d)
          else if is_recalled m then (Inl AlreadyRecalled, d)
          else if elapsed_micros e m > 10 * 1000000
            then (Inl RecallWindowExpired, d)
          else (Inr (), d\<lparr>messages := map (set_recalled (now e) messageID) (messages d)\<rparr>))"

section \<open>Hub.Register\<close>

text \<open>
  handler/websocket.go. A client is one socket of one user; the hub keeps
  \<open>Clients: map[userID]map[clientID]*Client\<close>, a finite map of finite maps, and
  \<open>len\<close> of the inner map is the number of its keys.
\<close>

record client =
  ID :: uuid
  UserID :: uuid
  CurrentConversationID :: "uuid option"
  closed :: bool

record hub =
  Clients :: "(uuid, (uuid, client) fmap) fmap"
  MaxConnectionsPerUser :: int
  hub_settings :: settings

text \<open>
  A JSON frame \<open>{"type": t, "data": {...}}\<close> with string-valued data fields, and what
  \<open>Register\<close> does besides changing the registry: writes on the new socket, the Redis
  presence key, the online-status notification it starts.
\<close>

datatype frame = Frame string "(string \<times> string) list"

datatype hub_effect =
    WriteTextMessage frame
  | WriteCloseMessage nat string
  | ConnClose
  | RedisSetOnline uuid
  | NotifyOnlineStatusChange uuid bool

text \<open>\<open>fmt.Sprintf("%d", n)\<close>.\<close>

definition digit_char :: "nat \<Rightarrow> char" where
  "digit_char n = ''0123456789'' ! n"

fun digits :: "nat \<Rightarrow> string" where
  "digits n = (if n < 10 then [digit_char n] else digits (n div 10) @ [digit_char (n mod 10)])"

definition fmt_d :: "int \<Rightarrow> string" where
  "fmt_d i = (if i < 0 then CHR ''-'' # digits (nat (- i)) else digits (nat i))"

definition max_devices_message :: "hub \<Rightarrow> string" where
  "max_devices_message h = ''Maximum '' @ fmt_d (MaxConnectionsPerUser h) @ '' devices allowed''"

definition CloseNormalClosure :: nat where
  "CloseNormalClosure = 1000"

definition user_devices :: "hub \<Rightarrow> uuid \<Rightarrow> (uuid, client) fmap" where
  "user_devices h u = (case fmlookup (Clients h) u of None \<Rightarrow> fmempty | Some devs \<Rightarrow> devs)"

definition Register :: "hub \<Rightarrow> client \<Rightarrow> hub \<times> hub_effect list" where
  "Register h c =
     (let clients1 = (if fmlookup (Clients h) (UserID c) = None
                      then fmupd (UserID c) fmempty (Clients h) else Clients h);
          devs = (case fmlookup clients1 (UserID c) of None \<Rightarrow> fmempty | Some ds \<Rightarrow> ds)
      in if int (fcard (fmdom devs)) \<ge> MaxConnectionsPerUser h
         then (h\<lparr>Clients := clients1\<rparr>,
               [WriteTextMessage
                  (Frame ''error'' [(''code'', ''too_many_devices''),
                                    (''message'', max_devices_message h)]),
                WriteCloseMessage CloseNormalClosure (max_devices_message h),
                ConnClose])
         else
           (let devs' = fmupd (ID c) c devs;
                deviceCount = fcard (fmdom devs');
                isFirstDevice = (deviceCount = 1)
            in (h\<lparr>Clients := fmupd (UserID c) devs' clients1\<rparr>,
                if IsFeatureEnabled (hub_settings h) ''enable_online_status''
                then [RedisSetOnline (UserID c)]
                     @ (if isFirstDevice then [NotifyOnlineStatusChange (UserID c) True] else [])
                else [])))"

definition NewHub :: "settings \<Rightarrow> hub" where
  "NewHub sysSvc = \<lparr>Clients = fmempty, MaxConnectionsPerUser = 18, hub_settings = sysSvc\<rparr>"

section \<open>Example states\<close>

text \<open>A database holding one live text message of user 1, created at time 0.\<close>

definition msg_by_1 :: message where
  "msg_by_1 = \<lparr>msg_id = 7, msg_conversation_id = 3, sender_id = 1, message_type = ''text'',
     content = Some (runes ''hi''), msg_metadata = None, status = ''sent'',
     reply_to_message_id = None, is_recalled = False, recalled_at = None,
     msg_created_at = 0\<rparr>"

definition db_one_message :: db where
  "db_one_message = \<lparr>conversations = [], conversation_members = [],
     messages = [msg_by_1], user_relationships = []\<rparr>"

definition env_at :: "timestamp \<Rightarrow> env" where
  "env_at t = \<lparr>now = t, gen_id = (\<lambda>k. 100 + k), conv_lock = (\<lambda>_. True),
     send_lock = (\<lambda>_. True)\<rparr>"

text \<open>
  Two service configurations, wired as the composition root does (both notifiers set),
  with no hub checker: the first-message limit off, and on.
\<close>

definition svc_off :: message_service where
  "svc_off = \<lparr>settingsCache = Map.empty, maxVideoSizeMB = 5, hubChecker = None,
     unreadNotifier = True, convNotifier = True\<rparr>"

definition svc_on :: message_service where
  "svc_on = \<lparr>settingsCache = [''enable_first_message_limit'' \<mapsto> ''true''],
     maxVideoSizeMB = 5, hubChecker = None, unreadNotifier = True, convNotifier = True\<rparr>"

text \<open>A private conversation 3 of users 1 and 2, with no message yet.\<close>

definition db_private :: db where
  "db_private = \<lparr>conversations = [new_conversation 3 ''private'' None 0],
     conversation_members = [new_member 11 3 1 ''member'' 0, new_member 12 3 2 ''member'' 0],
     messages = [], user_relationships = []\<rparr>"

text \<open>The same, where user 2 has blocked user 1.\<close>

definition db_blocked :: db where
  "db_blocked = db_private\<lparr>user_relationships :=
     [\<lparr>r_id = 21, r_user_id = 2, r_target_user_id = 1, relationship_type = ''blocked''\<rparr>]\<rparr>"

text \<open>The same, where user 1 (the sender below) has blocked user 2.\<close>

definition db_sender_blocks :: db where
  "db_sender_blocks = db_private\<lparr>user_relationships :=
     [\<lparr>r_id = 21, r_user_id = 1, r_target_user_id = 2, relationship_type = ''blocked''\<rparr>]\<rparr>"

text \<open>
  A group conversation 5 owned by user 1, with the active member 2 and the member 4 who
  left at time 50 (and had hidden the conversation).
\<close>

definition db_group_left :: db where
  "db_group_left = \<lparr>conversations = [new_conversation 5 ''group'' (Some (runes ''team'')) 0],
     conversation_members =
       [new_member 31 5 1 ''owner'' 0, new_member 32 5 2 ''member'' 0,
        (new_member 34 5 4 ''member'' 0)\<lparr>left_at := Some 50, is_hidden := True\<rparr>],
     messages = [], user_relationships = []\<rparr>"

text \<open>The private conversation after user 1 has sent one message and user 2 none.\<close>

definition db_first_sent :: db where
  "db_first_sent = db_private\<lparr>messages :=
     [\<lparr>msg_id = 41, msg_conversation_id = 3, sender_id = 1, message_type = ''text'',
       content = Some (runes ''hello''), msg_metadata = None, status = ''sent'',
       reply_to_message_id = None, is_recalled = False, recalled_at = None,
       msg_created_at = 1\<rparr>]\<rparr>"

definition db_empty :: db where
  "db_empty = \<lparr>conversations = [], conversation_members = [], messages = [],
     user_relationships = []\<rparr>"

definition text_request :: "uuid \<Rightarrow> uuid option \<Rightarrow> rune list option \<Rightarrow> SendMessageRequest" where
  "text_request conv receiver c = \<lparr>ConversationID = conv, ReceiverID = receiver,
     MessageType = ''text'', Content = c, Metadata = None, ReplyToMessageID = None\<rparr>"

definition image_request :: "uuid \<Rightarrow> SendMessageRequest" where
  "image_request conv = \<lparr>ConversationID = conv, ReceiverID = None,
     MessageType = ''image'', Content = None, Metadata = None, ReplyToMessageID = None\<rparr>"

text \<open>A text of sixty letters \<open>a\<close>, and the messages that the sends below persist.\<close>

definition long_text :: "rune list" where
  "long_text = replicate 60 97"

definition sent_message :: "uuid \<Rightarrow> string \<Rightarrow> rune list option \<Rightarrow> timestamp \<Rightarrow> message" where
  "sent_message conv ty c t = \<lparr>msg_id = 103, msg_conversation_id = conv, sender_id = 1,
     message_type = ty, content = c, msg_metadata = None, status = ''sent'',
     reply_to_message_id = None, is_recalled = False, recalled_at = None,
     msg_created_at = t\<rparr>"

text \<open>
  The private conversation with an older message 41 and a newer message 42 of user 1,
  where user 2 has three unread messages and has read up to message 42.
\<close>

definition db_read :: db where
  "db_read = db_private\<lparr>
     conversation_members :=
       [new_member 11 3 1 ''member'' 0,
        (new_member 12 3 2 ''member'' 0)\<lparr>unread_count := 3, last_read_message_id := Some 42,
           last_read_at := Some 2\<rparr>],
     messages :=
       [(sent_message 3 ''text'' (Some (runes ''one'')) 1)\<lparr>msg_id := 41\<rparr>,
        (sent_message 3 ''text'' (Some (runes ''two'')) 2)\<lparr>msg_id := 42\<rparr>]\<rparr>"

text \<open>
  The private conversation where user 1 has written, user 2 has replied, and user 2 has
  then blocked user 1.
\<close>

definition db_blocked_replied :: db where
  "db_blocked_replied = db_blocked\<lparr>messages :=
     [(sent_message 3 ''text'' (Some (runes ''one'')) 1)\<lparr>msg_id := 41\<rparr>,
      (sent_message 3 ''text'' (Some (runes ''two'')) 2)\<lparr>msg_id := 43, sender_id := 2\<rparr>]\<rparr>"

text \<open>
  An environment in which no \<open>SETNX\<close> attempt on either lock succeeds, and one in which
  the identifier generator repeats itself, so that the second member row of a new
  private conversation is refused by the primary key.
\<close>

definition env_locked :: env where
  "env_locked = \<lparr>now = 5, gen_id = (\<lambda>k. 100 + k), conv_lock = (\<lambda>_. False),
     send_lock = (\<lambda>_. False)\<rparr>"

definition env_clash :: env where
  "env_clash = \<lparr>now = 5, gen_id = (\<lambda>k. 100), conv_lock = (\<lambda>_. True),
     send_lock = (\<lambda>_. True)\<rparr>"

text \<open>The columns of a member row that a send can change, with the user and \<open>left_at\<close>.\<close>

definition member_view :: "conversation_member \<Rightarrow> uuid \<times> timestamp option \<times> bool \<times> int" where
  "member_view m = (m_user_id m, left_at m, is_hidden m, unread_count m)"

text \<open>
  A socket of a user that views no conversation, and the hub after a list of sockets has
  been registered one after the other. \<open>full_hub\<close> is the default hub on which user 1
  has registered the eighteen devices 1 to 18.
\<close>

definition device :: "uuid \<Rightarrow> uuid \<Rightarrow> client" where
  "device u i = \<lparr>ID = i, UserID = u, CurrentConversationID = None, closed = False\<rparr>"

fun register_all :: "hub \<Rightarrow> client list \<Rightarrow> hub" where
  "register_all h [] = h"
| "register_all h (c # cs) = register_all (fst (Register h c)) cs"

definition full_hub :: hub where
  "full_hub = register_all (NewHub Map.empty) (map (device 1) [1..<19])"

section \<open>Assumptions on the environment and the stored data\<close>

text \<open>
  \<open>gen_random_uuid()\<close> yields identifiers that are new: pairwise different, different
  from every stored member row's id, and the first one names no stored conversation
  and (by the foreign key of \<open>conversation_members\<close>) no stored member row's
  conversation.
\<close>

definition generated_fresh :: "env \<Rightarrow> db \<Rightarrow> bool" where
  "generated_fresh e d =
     (inj (gen_id e) \<and> \<not> conversation_exists d (gen_id e 0) \<and>
      (\<forall>m\<in>set (conversation_members d).
          m_conversation_id m \<noteq> gen_id e 0 \<and> (\<forall>k. m_id m \<noteq> gen_id e k)))"

text \<open>
  The stored data obeys \<open>UNIQUE(conversation_id, user_id)\<close>, and no member row of a
  private conversation has \<open>left_at\<close> set: the only writes of \<open>left_at\<close>,
  \<open>RemoveMemberFromGroup\<close> and \<open>LeaveGroup\<close>, refuse a conversation that is not a group.
\<close>

definition db_wf :: "db \<Rightarrow> bool" where
  "db_wf d =
     (distinct (map (\<lambda>m. (m_conversation_id m, m_user_id m)) (conversation_members d)) \<and>
      (\<forall>c\<in>set (conversations d). \<forall>m\<in>set (conversation_members d).
          conversation_type c = ''private'' \<and> m_conversation_id m = c_id c
            \<longrightarrow> left_at m = None))"

text \<open>
  In the words of the specification: the active-member set of a conversation, and a
  private conversation whose active-member set is exactly \<open>{a, b}\<close>.
\<close>

definition active_members :: "db \<Rightarrow> uuid \<Rightarrow> uuid set" where
  "active_members d conv =
     set (map m_user_id
       (filter (\<lambda>m. m_conversation_id m = conv \<and> left_at m = None) (conversation_members d)))"

definition private_conversation_of :: "db \<Rightarrow> uuid \<Rightarrow> uuid \<Rightarrow> conversation \<Rightarrow> bool" where
  "private_conversation_of d a b c =
     (c \<in> set (conversations d) \<and> conversation_type c = ''private''
      \<and> active_members d (c_id c) = {a, b})"

section \<open>Theorems\<close>

subsection \<open>Evaluation on the example states\<close>

lemmas eval_defs = SendMessage_def resolve_conversation_def getOrCreatePrivateConversation_def
  find_private_conversation_def private_match_def member_row_exists_def
  active_member_count_def isConversationMember_def isBlocked_def video_too_large_def
  first_message_gate_def CheckCanSend_def IsFeatureEnabled_def GetBoolSetting_def
  persist_and_fanout_def send_transaction_def insert_message_def conversation_exists_def
  other_members_def memberViewingStatus_def isViewing_now_def snapshot_viewing_def
  update_member_def member_update_row_def set_last_message_def member_fanout_def
  lastMessageText_def find_conversation_def userMessageCount_def otherUserMessageCount_def
  uuid_Nil_def new_member_def new_conversation_def
  text_request_def env_at_def svc_off_def svc_on_def db_private_def
  preview_image_def preview_video_def preview_emoji_def runes_def Let_def

lemma lock_acquired_const: "lock_acquired (\<lambda>_. b) n = (b \<and> 0 < n)"
  by (auto simp: lock_acquired_def list_ex_iff)

subsection \<open>The recall window (C1)\<close>

text \<open>
  C1. The claim: a recall by the sender of a not-yet-recalled message succeeds exactly
  when at most 120 seconds have elapsed since \<open>created_at\<close>, so a recall at
  \<open>created_at + 119 s\<close> is accepted. The code compares the elapsed seconds with 10:
  at 119 seconds, and already at 11 seconds, the sender's recall of a live message is
  refused with the window-expired error and the message is left as it was, while the
  same recall at 10 seconds succeeds.
\<close>

theorem C1_recall_at_119s_rejected:
  "RecallMessage (env_at (119 * 1000000)) db_one_message 1 7
     = (Inl RecallWindowExpired, db_one_message)
   \<and> RecallMessage (env_at (11 * 1000000)) db_one_message 1 7
     = (Inl RecallWindowExpired, db_one_message)
   \<and> fst (RecallMessage (env_at (10 * 1000000)) db_one_message 1 7) = Inr ()"
  by (simp add: RecallMessage_def find_message_def db_one_message_def msg_by_1_def
      env_at_def elapsed_micros_def)

subsection \<open>CheckCanSend and the first-message limit (C5)\<close>

lemma CheckCanSend_off:
  "\<not> IsFeatureEnabled (settingsCache s) ''enable_first_message_limit'' \<Longrightarrow> CheckCanSend s d u conv"
  by (simp add: CheckCanSend_def)

lemma gate_off:
  "\<not> IsFeatureEnabled (settingsCache s) ''enable_first_message_limit''
     \<Longrightarrow> first_message_gate s e d u conv jc = None"
  by (simp add: first_message_gate_def CheckCanSend_off)

lemma persist_error:
  "persist_and_fanout s e d u req conv = (Inl err, d', effs)
     \<Longrightarrow> (err = FailedToSaveMessage \<or> err = FailedToUpdateMember) \<and> d' = d \<and> effs = []"
  by (auto simp: persist_and_fanout_def send_transaction_def Let_def
      split: sum.splits option.splits)

lemma SendMessage_not_limit_when_off:
  assumes off: "\<not> IsFeatureEnabled (settingsCache s) ''enable_first_message_limit''"
  shows "fst (SendMessage s e d u req) \<noteq> Inl FirstMessageLimit"
proof
  assume h: "fst (SendMessage s e d u req) = Inl FirstMessageLimit"
  obtain r d1 where rc: "resolve_conversation e d u req = (r, d1)" by (cases "resolve_conversation e d u req")
  show False
  proof (cases r)
    case (Inl err)
    with h rc show False by (auto simp: SendMessage_def split: if_splits)
  next
    case (Inr p)
    obtain c jc where p: "p = (c, jc)" by (cases p)
    obtain x d2 effs where pf: "persist_and_fanout s e d1 u req c = (x, d2, effs)"
      by (cases "persist_and_fanout s e d1 u req c")
    from h rc Inr p pf gate_off[OF off, of e d1 u c jc] have "x = Inl FirstMessageLimit"
      by (auto simp: SendMessage_def split: if_splits)
    with pf persist_error show False by blast
  qed
qed

text \<open>
  C5. \<open>CheckCanSend\<close> returns true for every group conversation. While
  \<open>enable_first_message_limit\<close> is on, for a private conversation it returns true exactly
  when the sender has sent no message in that conversation or someone else has sent at
  least one in it. While the setting is off it returns true for every conversation, and
  \<open>SendMessage\<close> never fails with the first-message-limit error.
\<close>

theorem C5_can_send:
  "(find_conversation d conv = Some c \<longrightarrow> conversation_type c = ''group''
      \<longrightarrow> CheckCanSend s d u conv)
   \<and> (IsFeatureEnabled (settingsCache s) ''enable_first_message_limit''
      \<longrightarrow> find_conversation d conv = Some c \<longrightarrow> conversation_type c = ''private''
      \<longrightarrow> CheckCanSend s d u conv
           = ((\<forall>m\<in>set (messages d). \<not> (msg_conversation_id m = conv \<and> sender_id m = u))
              \<or> (\<exists>m\<in>set (messages d). msg_conversation_id m = conv \<and> sender_id m \<noteq> u)))
   \<and> (\<not> IsFeatureEnabled (settingsCache s) ''enable_first_message_limit''
      \<longrightarrow> CheckCanSend s d u conv \<and> fst (SendMessage s e d u req) \<noteq> Inl FirstMessageLimit)"
proof (intro conjI impI)
  assume "find_conversation d conv = Some c" "conversation_type c = ''group''"
  then show "CheckCanSend s d u conv" by (simp add: CheckCanSend_def)
next
  assume "IsFeatureEnabled (settingsCache s) ''enable_first_message_limit''"
    "find_conversation d conv = Some c" "conversation_type c = ''private''"
  then show "CheckCanSend s d u conv
           = ((\<forall>m\<in>set (messages d). \<not> (msg_conversation_id m = conv \<and> sender_id m = u))
              \<or> (\<exists>m\<in>set (messages d). msg_conversation_id m = conv \<and> sender_id m \<noteq> u))"
    by (auto simp: CheckCanSend_def userMessageCount_def otherUserMessageCount_def
        filter_empty_conv)
next
  assume "\<not> IsFeatureEnabled (settingsCache s) ''enable_first_message_limit''"
  then show "CheckCanSend s d u conv" by (rule CheckCanSend_off)
next
  assume "\<not> IsFeatureEnabled (settingsCache s) ''enable_first_message_limit''"
  then show "fst (SendMessage s e d u req) \<noteq> Inl FirstMessageLimit"
    by (rule SendMessage_not_limit_when_off)
qed

theorem C5_can_send_witness:
  "\<not> CheckCanSend svc_on db_first_sent 1 3 \<and> CheckCanSend svc_on db_first_sent 2 3
   \<and> CheckCanSend svc_on db_group_left 1 5
   \<and> CheckCanSend svc_off db_first_sent 1 3
   \<and> fst (SendMessage svc_off (env_at 5) db_first_sent 1
        (text_request 3 None (Some (runes ''again'')))) \<noteq> Inl FirstMessageLimit
   \<and> fst (SendMessage svc_on (env_at 5) db_first_sent 1
        (text_request 3 None (Some (runes ''again'')))) = Inl FirstMessageLimit"
  using C5_can_send [of db_first_sent 3 "new_conversation 3 ''private'' None 0" svc_on 1]
    C5_can_send [of db_first_sent 3 "new_conversation 3 ''private'' None 0" svc_on 2]
    C5_can_send [of db_group_left 5 "new_conversation 5 ''group'' (Some (runes ''team'')) 0" svc_on 1]
    C5_can_send [of db_first_sent 3 "new_conversation 3 ''private'' None 0" svc_off 1
      "env_at 5" "text_request 3 None (Some (runes ''again''))"]
  by (simp add: eval_defs db_first_sent_def db_group_left_def lock_acquired_const)

subsection \<open>Sending to oneself (C10)\<close>

text \<open>
  C10 (amended). A send request with no \<open>conversation_id\<close> whose \<open>receiver_id\<close> is the
  sender's own id always fails and leaves the database as it was (no conversation, no
  member row, no message is created) and pushes nothing. The error is "content is
  required for text messages" when the request is a text message with absent or empty
  content, since that check comes first, and otherwise "failed to get conversation:
  cannot send message to yourself".
\<close>

theorem C10_send_to_self:
  assumes "ConversationID req = uuid_Nil" and "ReceiverID req = Some senderID"
  shows "SendMessage s e d senderID req =
           (Inl (if MessageType req = ''text'' \<and> (Content req = None \<or> Content req = Some [])
                 then ContentRequired
                 else FailedToGetConversation CannotSendToYourself), d, [])"
  using assms
  by (simp add: SendMessage_def resolve_conversation_def getOrCreatePrivateConversation_def)

theorem C10_send_to_self_witness:
  "SendMessage svc_off (env_at 5) db_private 1 (text_request 0 (Some 1) (Some (runes ''hi'')))
     = (Inl (FailedToGetConversation CannotSendToYourself), db_private, [])"
  using C10_send_to_self [of "text_request 0 (Some 1) (Some (runes ''hi''))" 1 svc_off
      "env_at 5" db_private]
  by (simp add: text_request_def uuid_Nil_def runes_def)

text \<open>
  The claim as stated names "cannot send message to yourself" as the error of every such
  request: a text message with empty content sent to oneself fails with the
  content-required error instead.
\<close>

theorem C10_counterexample:
  "SendMessage svc_off (env_at 5) db_private 1 (text_request 0 (Some 1) (Some []))
     = (Inl ContentRequired, db_private, [])
   \<and> ContentRequired \<noteq> FailedToGetConversation CannotSendToYourself
   \<and> ContentRequired \<noteq> CannotSendToYourself"
  by (simp add: SendMessage_def text_request_def)

subsection \<open>The block check (C6)\<close>

lemma resolve_relationships:
  "resolve_conversation e d a req = (r, d1) \<Longrightarrow>
     user_relationships d1 = user_relationships d \<and> messages d1 = messages d"
  by (auto simp: resolve_conversation_def getOrCreatePrivateConversation_def
      createPrivateConversation_def insert_conversation_def insert_member_def Let_def
      split: if_splits option.splits)

lemma isBlocked_row:
  "r \<in> set (user_relationships d) \<Longrightarrow> r_user_id r = b \<Longrightarrow> r_target_user_id r = a
     \<Longrightarrow> relationship_type r = ''blocked'' \<Longrightarrow> isBlocked d a b"
  by (auto simp: isBlocked_def list_ex_iff)

lemma SendMessage_blocked_refused:
  assumes blk: "isBlocked d a b" and rcv: "ReceiverID req = Some b"
  shows "\<exists>err d'. SendMessage s e d a req = (Inl err, d', []) \<and> messages d' = messages d"
proof -
  obtain rc d1 where res: "resolve_conversation e d a req = (rc, d1)"
    by (cases "resolve_conversation e d a req")
  from resolve_relationships[OF res] blk have b1: "isBlocked d1 a b" and m1: "messages d1 = messages d"
    by (simp_all add: isBlocked_def)
  show ?thesis
  proof (cases rc)
    case (Inl err)
    with res m1 show ?thesis by (auto simp: SendMessage_def)
  next
    case (Inr p)
    obtain conv jc where p: "p = (conv, jc)" by (cases p)
    from res Inr p b1 m1 rcv show ?thesis by (auto simp: SendMessage_def)
  qed
qed

text \<open>
  What the code does for a request that names the receiver: when a relationship row
  (owner B, target A, \<open>blocked\<close>) exists, every send of A whose request names B as
  \<open>receiver_id\<close> is refused and the messages table is left as it was; the error is the
  blocked error whenever the request passes the checks that come before the block
  check. A row (owner A, target B, \<open>blocked\<close>) held by the sender does not refuse by
  itself.
\<close>

lemma blocked_receiver_refused:
  assumes row: "r \<in> set (user_relationships d)" "r_user_id r = b" "r_target_user_id r = a"
      "relationship_type r = ''blocked''"
    and rcv: "ReceiverID req = Some b"
  shows "(\<exists>err d'. SendMessage s e d a req = (Inl err, d', []) \<and> messages d' = messages d)
     \<and> (\<not> (MessageType req = ''text'' \<and> (Content req = None \<or> Content req = Some []))
        \<longrightarrow> resolve_conversation e d a req = (Inr (conv, jc), d1)
        \<longrightarrow> conv \<noteq> uuid_Nil \<longrightarrow> isConversationMember d1 conv a
        \<longrightarrow> SendMessage s e d a req = (Inl BlockedByUser, d1, []))"
proof (intro conjI impI)
  from row have blk: "isBlocked d a b" by (rule isBlocked_row)
  from SendMessage_blocked_refused[OF blk rcv]
  show "\<exists>err d'. SendMessage s e d a req = (Inl err, d', []) \<and> messages d' = messages d" .
  assume ok: "\<not> (MessageType req = ''text'' \<and> (Content req = None \<or> Content req = Some []))"
    and res: "resolve_conversation e d a req = (Inr (conv, jc), d1)"
    and nz: "conv \<noteq> uuid_Nil" and mem: "isConversationMember d1 conv a"
  from resolve_relationships[OF res] blk have "isBlocked d1 a b" by (simp add: isBlocked_def)
  with ok res nz mem rcv show "SendMessage s e d a req = (Inl BlockedByUser, d1, [])"
    by (auto simp: SendMessage_def)
qed

lemma sender_own_block_does_not_refuse:
  "isBlocked db_sender_blocks 2 1
   \<and> isl (fst (SendMessage svc_off (env_at 5) db_sender_blocks 1
             (text_request 0 (Some 2) (Some (runes ''hi''))))) = False"
  by (simp add: eval_defs db_sender_blocks_def lock_acquired_const)

text \<open>
  C6. The claim: when a relationship row (owner B, target A, \<open>blocked\<close>) exists, every
  send of a message from A to B is refused with the blocked error and no message row
  is inserted. The code makes the block check only \<open>if req.ReceiverID != nil\<close>. In the
  private conversation 3 of users 1 and 2, where user 2 has replied to user 1 and then
  blocked user 1, with the first-message limit on: the send of user 1 that names user 2
  as \<open>receiver_id\<close> is refused with the blocked error, but the send of user 1 addressed
  by \<open>conversation_id\<close> 3 alone, whose only other member is user 2, succeeds, its row
  is inserted, and it is pushed to user 2.
\<close>

theorem C6_blocked_sender_not_refused:
  "isBlocked db_blocked_replied 1 2
   \<and> SendMessage svc_on (env_at 5) db_blocked_replied 1
        (text_request 0 (Some 2) (Some (runes ''hi'')))
       = (Inl BlockedByUser, db_blocked_replied, [])
   \<and> fst (SendMessage svc_on (env_at 5) db_blocked_replied 1
        (text_request 3 None (Some (runes ''hi''))))
       = Inr (sent_message 3 ''text'' (Some (runes ''hi'')) 5)
   \<and> map (\<lambda>m. (msg_id m, sender_id m))
        (messages (fst (snd (SendMessage svc_on (env_at 5) db_blocked_replied 1
           (text_request 3 None (Some (runes ''hi'')))))))
       = [(41, 1), (43, 2), (103, 1)]
   \<and> OfflinePush 2 (sent_message 3 ''text'' (Some (runes ''hi'')) 5)
       \<in> set (snd (snd (SendMessage svc_on (env_at 5) db_blocked_replied 1
           (text_request 3 None (Some (runes ''hi''))))))"
  by (simp add: eval_defs db_blocked_replied_def db_blocked_def sent_message_def
      lock_acquired_const)

subsection \<open>The preview text (C8)\<close>

lemma fanout_preview:
  "ConversationUpdate u c t p n \<in> set (concat (map (member_fanout s senderID msg snap) members))
     \<Longrightarrow> p = lastMessageText msg"
  by (auto simp: member_fanout_def Let_def split: if_splits)

lemma persist_success:
  "persist_and_fanout s e d senderID req conv = (Inr msg, d', effs) \<Longrightarrow>
     message_type msg = MessageType req \<and> content msg = Content req \<and>
     (\<exists>snap members. effs = concat (map (member_fanout s senderID msg snap) members))"
  by (auto simp: persist_and_fanout_def Let_def split: sum.splits)

lemma SendMessage_success:
  assumes "SendMessage s e d senderID req = (Inr msg, d', effs)"
  shows "\<not> (MessageType req = ''text'' \<and> (Content req = None \<or> Content req = Some []))
     \<and> (\<exists>d1 conv. persist_and_fanout s e d1 senderID req conv = (Inr msg, d', effs))"
  using assms
  by (auto simp: SendMessage_def split: if_splits prod.splits sum.splits option.splits)

text \<open>
  C8 (amended). For every message that \<open>SendMessage\<close> persists, the preview is: for kind
  \<open>text\<close>, the content itself when it has at most 50 characters and otherwise its first
  50 characters followed by \<open>...\<close>; for kind \<open>image\<close> the four characters U+005B U+56FE
  U+7247 U+005D; for kind \<open>video\<close> U+005B U+89C6 U+9891 U+005D; for kind \<open>emoji\<close> U+005B
  U+8868 U+60C5 U+005D (the bracketed Chinese words for picture, video and expression).
  Every conversation update pushed for the message carries that preview.
\<close>

theorem C8_preview:
  assumes "SendMessage s e d senderID req = (Inr msg, d', effs)"
  shows "(message_type msg = ''text'' \<longrightarrow>
            (\<exists>t. content msg = Some t \<and> t \<noteq> [] \<and>
                 lastMessageText msg
                   = Some (if length t > 50 then take 50 t @ runes ''...'' else t)))
     \<and> (message_type msg = ''image'' \<longrightarrow> lastMessageText msg = Some [0x5B, 0x56FE, 0x7247, 0x5D])
     \<and> (message_type msg = ''video'' \<longrightarrow> lastMessageText msg = Some [0x5B, 0x89C6, 0x9891, 0x5D])
     \<and> (message_type msg = ''emoji'' \<longrightarrow> lastMessageText msg = Some [0x5B, 0x8868, 0x60C5, 0x5D])
     \<and> (\<forall>u c t p n. ConversationUpdate u c t p n \<in> set effs \<longrightarrow> p = lastMessageText msg)"
proof -
  from SendMessage_success[OF assms] obtain d1 conv where
    ok: "\<not> (MessageType req = ''text'' \<and> (Content req = None \<or> Content req = Some []))"
    and pf: "persist_and_fanout s e d1 senderID req conv = (Inr msg, d', effs)" by blast
  from persist_success[OF pf] obtain snap members where
    ty: "message_type msg = MessageType req" and ct: "content msg = Content req"
    and ef: "effs = concat (map (member_fanout s senderID msg snap) members)" by blast
  have tx: "message_type msg = ''text'' \<longrightarrow>
            (\<exists>t. content msg = Some t \<and> t \<noteq> [] \<and>
                 lastMessageText msg
                   = Some (if length t > 50 then take 50 t @ runes ''...'' else t))"
    using ok ty ct by (cases "content msg") (auto simp: lastMessageText_def)
  have img: "message_type msg = ''image'' \<longrightarrow> lastMessageText msg = Some [0x5B, 0x56FE, 0x7247, 0x5D]"
    by (simp add: lastMessageText_def preview_image_def)
  have vid: "message_type msg = ''video'' \<longrightarrow> lastMessageText msg = Some [0x5B, 0x89C6, 0x9891, 0x5D]"
    by (simp add: lastMessageText_def preview_video_def)
  have emo: "message_type msg = ''emoji'' \<longrightarrow> lastMessageText msg = Some [0x5B, 0x8868, 0x60C5, 0x5D]"
    by (simp add: lastMessageText_def preview_emoji_def)
  have upd: "\<forall>u c t p n. ConversationUpdate u c t p n \<in> set effs \<longrightarrow> p = lastMessageText msg"
    using ef fanout_preview by blast
  from tx img vid emo upd show ?thesis by blast
qed

theorem C8_preview_witness:
  "fst (SendMessage svc_off (env_at 5) db_private 1 (text_request 3 None (Some long_text)))
     = Inr (sent_message 3 ''text'' (Some long_text) 5)
   \<and> lastMessageText (sent_message 3 ''text'' (Some long_text) 5)
     = Some (replicate 50 97 @ runes ''...'')
   \<and> lastMessageText (sent_message 3 ''text'' (Some (runes ''hi'')) 5) = Some (runes ''hi'')"
proof -
  let ?r = "SendMessage svc_off (env_at 5) db_private 1 (text_request 3 None (Some long_text))"
  let ?r2 = "SendMessage svc_off (env_at 5) db_private 1 (text_request 3 None (Some (runes ''hi'')))"
  have f: "fst ?r = Inr (sent_message 3 ''text'' (Some long_text) 5)"
    by (simp add: eval_defs long_text_def sent_message_def)
  then have eq: "?r = (Inr (sent_message 3 ''text'' (Some long_text) 5), fst (snd ?r), snd (snd ?r))"
    by (metis prod.collapse)
  have "fst ?r2 = Inr (sent_message 3 ''text'' (Some (runes ''hi'')) 5)"
    by (simp add: eval_defs sent_message_def)
  then have eq2: "?r2 = (Inr (sent_message 3 ''text'' (Some (runes ''hi'')) 5), fst (snd ?r2), snd (snd ?r2))"
    by (metis prod.collapse)
  from C8_preview[OF eq] have
    "lastMessageText (sent_message 3 ''text'' (Some long_text) 5)
       = Some (replicate 50 97 @ runes ''...'')"
    by (simp add: sent_message_def long_text_def)
  moreover from C8_preview[OF eq2] have
    "lastMessageText (sent_message 3 ''text'' (Some (runes ''hi'')) 5) = Some (runes ''hi'')"
    by (simp add: sent_message_def runes_def)
  ultimately show ?thesis using f by simp
qed

text \<open>
  The claim as stated gives the preview of an image message as the ASCII string
  \<open>[image]\<close>: the image message that user 1 sends has the preview U+005B U+56FE U+7247
  U+005D, which is a different string.
\<close>

theorem C8_counterexample:
  "fst (SendMessage svc_off (env_at 5) db_private 1 (image_request 3))
     = Inr (sent_message 3 ''image'' None 5)
   \<and> lastMessageText (sent_message 3 ''image'' None 5) = Some [0x5B, 0x56FE, 0x7247, 0x5D]
   \<and> lastMessageText (sent_message 3 ''image'' None 5) \<noteq> Some (runes ''[image]'')
   \<and> snd (snd (SendMessage svc_off (env_at 5) db_private 1 (image_request 3)))
     = [OfflinePush 2 (sent_message 3 ''image'' None 5),
        ConversationUpdate 2 3 5 (Some [0x5B, 0x56FE, 0x7247, 0x5D]) 1,
        UnreadCountUpdate 2 3 1]"
  by (simp add: eval_defs image_request_def sent_message_def)

subsection \<open>Unread accounting on send (C2)\<close>

text \<open>
  C2. The claim: a successful send updates exactly the member rows of the active members
  other than the sender, and members who have left keep their \<open>unread_count\<close>. The code
  selects the rows to update by \<open>conversation_id = ? AND user_id != ?\<close>, with no
  condition on \<open>left_at\<close>: when user 1 sends a text to the group, the row of user 4, who
  left at time 50, has its \<open>unread_count\<close> raised from 0 to 1 and its \<open>is_hidden\<close>
  cleared, like the row of the active member 2, and the message is pushed to the
  offline queue of user 4.
\<close>

theorem C2_left_member_updated:
  "map member_view (conversation_members db_group_left)
     = [(1, None, False, 0), (2, None, False, 0), (4, Some 50, True, 0)]
   \<and> fst (SendMessage svc_off (env_at 60) db_group_left 1
        (text_request 5 None (Some (runes ''hi''))))
     = Inr (sent_message 5 ''text'' (Some (runes ''hi'')) 60)
   \<and> map member_view (conversation_members (fst (snd
        (SendMessage svc_off (env_at 60) db_group_left 1
           (text_request 5 None (Some (runes ''hi'')))))))
     = [(1, None, False, 0), (2, None, False, 1), (4, Some 50, False, 1)]
   \<and> OfflinePush 4 (sent_message 5 ''text'' (Some (runes ''hi'')) 60)
       \<in> set (snd (snd (SendMessage svc_off (env_at 60) db_group_left 1
           (text_request 5 None (Some (runes ''hi''))))))"
  by (simp add: eval_defs db_group_left_def sent_message_def member_view_def)

subsection \<open>Group creation (C9)\<close>

lemma insert_member_Some:
  "insert_member d m = Some d' \<Longrightarrow>
     d' = d\<lparr>conversation_members := conversation_members d @ [m]\<rparr>
     \<and> \<not> member_row_exists d (m_conversation_id m) (m_user_id m)"
  by (auto simp: insert_member_def split: if_splits)

lemma member_row_exists_append:
  "member_row_exists (d\<lparr>conversation_members := conversation_members d @ [m]\<rparr>) conv u
     = (member_row_exists d conv u \<or> (m_conversation_id m = conv \<and> m_user_id m = u))"
  by (auto simp: member_row_exists_def list_ex_iff)

lemma add_group_members_keeps_rows:
  "add_group_members e conv creator k ids d = Some d' \<Longrightarrow> member_row_exists d conv x
     \<Longrightarrow> x \<noteq> creator \<Longrightarrow> x \<notin> set ids"
proof (induction ids arbitrary: d k)
  case Nil
  then show ?case by simp
next
  case (Cons y ys)
  show ?case
  proof (cases "y = creator")
    case True
    with Cons show ?thesis by auto
  next
    case False
    with Cons.prems(1) obtain d1 where
      ins: "insert_member d (new_member (gen_id e k) conv y ''member'' (now e)) = Some d1"
      and rest: "add_group_members e conv creator (Suc k) ys d1 = Some d'"
      by (auto split: option.splits)
    from insert_member_Some[OF ins] have
      d1: "d1 = d\<lparr>conversation_members := conversation_members d
                 @ [new_member (gen_id e k) conv y ''member'' (now e)]\<rparr>"
      and ny: "\<not> member_row_exists d conv y"
      by (simp_all add: new_member_def)
    from ny Cons.prems(2) have "x \<noteq> y" by auto
    moreover have "member_row_exists d1 conv x"
      using Cons.prems(2) by (simp add: d1 member_row_exists_append)
    ultimately show ?thesis using Cons.IH[OF rest _ Cons.prems(3)] by simp
  qed
qed

lemma add_group_members_distinct:
  "add_group_members e conv creator k ids d = Some d'
     \<Longrightarrow> distinct (filter (\<lambda>u. u \<noteq> creator) ids)"
proof (induction ids arbitrary: d k)
  case Nil
  then show ?case by simp
next
  case (Cons y ys)
  show ?case
  proof (cases "y = creator")
    case True
    with Cons show ?thesis by auto
  next
    case False
    with Cons.prems(1) obtain d1 where
      ins: "insert_member d (new_member (gen_id e k) conv y ''member'' (now e)) = Some d1"
      and rest: "add_group_members e conv creator (Suc k) ys d1 = Some d'"
      by (auto split: option.splits)
    from insert_member_Some[OF ins] have
      d1: "d1 = d\<lparr>conversation_members := conversation_members d
                 @ [new_member (gen_id e k) conv y ''member'' (now e)]\<rparr>"
      by (simp add: new_member_def)
    have "member_row_exists d1 conv y"
      by (simp add: d1 member_row_exists_append new_member_def)
    from add_group_members_keeps_rows[OF rest this False] have "y \<notin> set ys" .
    with Cons.IH[OF rest] False show ?thesis by simp
  qed
qed

lemma add_group_members_ok:
  assumes "conversation_exists d conv"
    and "\<forall>j\<ge>k. \<forall>m\<in>set (conversation_members d). m_id m \<noteq> gen_id e j"
    and "inj (gen_id e)"
    and "\<forall>x\<in>set ids. x \<noteq> creator \<longrightarrow> \<not> member_row_exists d conv x"
    and "distinct (filter (\<lambda>u. u \<noteq> creator) ids)"
  shows "add_group_members e conv creator k ids d
     = Some (d\<lparr>conversation_members := conversation_members d @
          map (\<lambda>(j, u). new_member (gen_id e j) conv u ''member'' (now e))
            (enumerate k (filter (\<lambda>u. u \<noteq> creator) ids))\<rparr>)"
  using assms
proof (induction ids arbitrary: d k)
  case Nil
  then show ?case by simp
next
  case (Cons y ys)
  show ?case
  proof (cases "y = creator")
    case True
    with Cons show ?thesis by simp
  next
    case False
    let ?row = "new_member (gen_id e k) conv y ''member'' (now e)"
    let ?d1 = "d\<lparr>conversation_members := conversation_members d @ [?row]\<rparr>"
    have ins: "insert_member d ?row = Some ?d1"
      using Cons.prems(1,2,4) False
      by (auto simp: insert_member_def new_member_def list_ex_iff)
    have a1: "conversation_exists ?d1 conv"
      using Cons.prems(1) by (simp add: conversation_exists_def)
    have a2: "\<forall>j\<ge>Suc k. \<forall>m\<in>set (conversation_members ?d1). m_id m \<noteq> gen_id e j"
      using Cons.prems(2,3) by (auto simp: new_member_def inj_eq)
    have a4: "\<forall>x\<in>set ys. x \<noteq> creator \<longrightarrow> \<not> member_row_exists ?d1 conv x"
      using Cons.prems(4,5) False by (auto simp: member_row_exists_append new_member_def)
    have a5: "distinct (filter (\<lambda>u. u \<noteq> creator) ys)"
      using Cons.prems(5) False by simp
    from Cons.IH[OF a1 a2 Cons.prems(3) a4 a5] ins False show ?thesis by simp
  qed
qed

lemma CreateGroupConversation_rollback:
  "CreateGroupConversation e d creator name ids = (Inl err, d') \<Longrightarrow> d' = d"
  by (auto simp: CreateGroupConversation_def Let_def split: option.splits)

lemma CreateGroupConversation_duplicate:
  assumes "\<not> distinct (filter (\<lambda>u. u \<noteq> creator) ids)"
  shows "\<exists>err. CreateGroupConversation e d creator name ids = (Inl err, d)"
  using assms add_group_members_distinct
  by (fastforce simp: CreateGroupConversation_def Let_def split: option.splits)

lemma CreateGroupConversation_ok:
  assumes fresh: "generated_fresh e d" and len: "length name \<le> 100"
    and dist: "distinct (filter (\<lambda>u. u \<noteq> creator) ids)"
  shows "CreateGroupConversation e d creator name ids =
     (Inr (new_conversation (gen_id e 0) ''group'' (Some name) (now e)),
      d\<lparr>conversations := conversations d
           @ [new_conversation (gen_id e 0) ''group'' (Some name) (now e)],
        conversation_members := conversation_members d
           @ new_member (gen_id e 1) (gen_id e 0) creator ''owner'' (now e)
           # map (\<lambda>(j, u). new_member (gen_id e j) (gen_id e 0) u ''member'' (now e))
               (enumerate 2 (filter (\<lambda>u. u \<noteq> creator) ids))\<rparr>)"
proof -
  let ?conv = "new_conversation (gen_id e 0) ''group'' (Some name) (now e)"
  let ?d1 = "d\<lparr>conversations := conversations d @ [?conv]\<rparr>"
  let ?owner = "new_member (gen_id e 1) (gen_id e 0) creator ''owner'' (now e)"
  let ?d2 = "?d1\<lparr>conversation_members := conversation_members ?d1 @ [?owner]\<rparr>"
  from fresh have inj: "inj (gen_id e)" and nc: "\<not> conversation_exists d (gen_id e 0)"
    and rows: "\<forall>m\<in>set (conversation_members d).
          m_conversation_id m \<noteq> gen_id e 0 \<and> (\<forall>k. m_id m \<noteq> gen_id e k)"
    by (simp_all add: generated_fresh_def)
  have i1: "insert_conversation d ?conv = Some ?d1"
    using nc len by (simp add: insert_conversation_def new_conversation_def name_fits_def)
  have ex1: "conversation_exists ?d1 (gen_id e 0)"
    by (simp add: conversation_exists_def new_conversation_def)
  have i2: "insert_member ?d1 ?owner = Some ?d2"
    using rows ex1 by (auto simp: insert_member_def new_member_def list_ex_iff
        member_row_exists_def)
  have a1: "conversation_exists ?d2 (gen_id e 0)"
    using ex1 by (simp add: conversation_exists_def)
  have a2: "\<forall>j\<ge>2. \<forall>m\<in>set (conversation_members ?d2). m_id m \<noteq> gen_id e j"
    using rows inj by (auto simp: new_member_def inj_eq)
  have a4: "\<forall>x\<in>set ids. x \<noteq> creator \<longrightarrow> \<not> member_row_exists ?d2 (gen_id e 0) x"
    using rows by (auto simp: member_row_exists_def list_ex_iff new_member_def)
  from add_group_members_ok[OF a1 a2 inj a4 dist] i1 i2 show ?thesis
    by (simp add: CreateGroupConversation_def Let_def new_conversation_def)
qed

text \<open>
  C9 (amended). \<open>CreateGroupConversation\<close> runs in one transaction. When the name has at
  most 100 characters and the ids of \<open>memberIDs\<close> other than the creator are pairwise
  different, it inserts exactly one conversation of kind \<open>group\<close> carrying the name, one
  member row for the creator with role \<open>owner\<close>, and one member row with role \<open>member\<close>
  for each id of the list other than the creator, in the order of the list; occurrences
  of the creator in the list are skipped. When an id other than the creator occurs
  twice in the list, the call fails and the database is left as it was: the second
  insert breaks the uniqueness of \<open>(conversation_id, user_id)\<close> and the transaction is
  rolled back.
\<close>

theorem C9_create_group:
  "(generated_fresh e d \<longrightarrow> length name \<le> 100
      \<longrightarrow> distinct (filter (\<lambda>u. u \<noteq> creator) ids)
      \<longrightarrow> CreateGroupConversation e d creator name ids =
           (Inr (new_conversation (gen_id e 0) ''group'' (Some name) (now e)),
            d\<lparr>conversations := conversations d
                 @ [new_conversation (gen_id e 0) ''group'' (Some name) (now e)],
              conversation_members := conversation_members d
                 @ new_member (gen_id e 1) (gen_id e 0) creator ''owner'' (now e)
                 # map (\<lambda>(j, u). new_member (gen_id e j) (gen_id e 0) u ''member'' (now e))
                     (enumerate 2 (filter (\<lambda>u. u \<noteq> creator) ids))\<rparr>))
   \<and> (\<not> distinct (filter (\<lambda>u. u \<noteq> creator) ids)
      \<longrightarrow> (\<exists>err. CreateGroupConversation e d creator name ids = (Inl err, d)))"
  using CreateGroupConversation_ok CreateGroupConversation_duplicate by blast

theorem C9_create_group_witness:
  "fst (CreateGroupConversation (env_at 5) db_private 1 (runes ''team'') [2, 1, 3])
     = Inr (new_conversation 100 ''group'' (Some (runes ''team'')) 5)
   \<and> map (\<lambda>m. (m_id m, m_conversation_id m, m_user_id m, m_role m))
        (conversation_members
           (snd (CreateGroupConversation (env_at 5) db_private 1 (runes ''team'') [2, 1, 3])))
     = [(11, 3, 1, ''member''), (12, 3, 2, ''member''), (101, 100, 1, ''owner''),
        (102, 100, 2, ''member''), (103, 100, 3, ''member'')]
   \<and> (\<exists>err. CreateGroupConversation (env_at 5) db_private 1 (runes ''team'') [2, 3, 2]
              = (Inl err, db_private))"
proof -
  have fresh: "generated_fresh (env_at 5) db_private"
    by (simp add: generated_fresh_def env_at_def db_private_def conversation_exists_def
        new_conversation_def new_member_def inj_def)
  have len: "length (runes ''team'') \<le> 100" by (simp add: runes_def)
  note inst = C9_create_group [of "env_at 5" db_private "runes ''team''" 1]
  from inst [of "[2, 1, 3]"] fresh len
  have ok: "CreateGroupConversation (env_at 5) db_private 1 (runes ''team'') [2, 1, 3] =
           (Inr (new_conversation (gen_id (env_at 5) 0) ''group'' (Some (runes ''team'')) (now (env_at 5))),
            db_private\<lparr>conversations := conversations db_private
                 @ [new_conversation (gen_id (env_at 5) 0) ''group'' (Some (runes ''team'')) (now (env_at 5))],
              conversation_members := conversation_members db_private
                 @ new_member (gen_id (env_at 5) 1) (gen_id (env_at 5) 0) 1 ''owner'' (now (env_at 5))
                 # map (\<lambda>(j, u). new_member (gen_id (env_at 5) j) (gen_id (env_at 5) 0) u ''member'' (now (env_at 5)))
                     (enumerate 2 (filter (\<lambda>u. u \<noteq> 1) [2, 1, 3]))\<rparr>)"
    by simp
  from inst [of "[2, 3, 2]"]
  have dup: "\<exists>err. CreateGroupConversation (env_at 5) db_private 1 (runes ''team'') [2, 3, 2]
              = (Inl err, db_private)"
    by simp
  show ?thesis
    unfolding ok using dup
    by (simp add: env_at_def db_private_def new_member_def new_conversation_def
        enumerate_eq_zip)
qed

text \<open>
  The claim as stated has a repeated id yield a single member row without an error: with
  user 2 listed twice, the call fails with the constraint violation and inserts nothing.
\<close>

theorem C9_counterexample:
  "CreateGroupConversation (env_at 5) db_empty 1 (runes ''team'') [2, 2]
     = (Inl ConstraintViolation, db_empty)"
  by (simp add: CreateGroupConversation_def insert_conversation_def insert_member_def
      conversation_exists_def member_row_exists_def name_fits_def new_conversation_def
      new_member_def env_at_def db_empty_def runes_def Let_def)

subsection \<open>Private-conversation resolution (C3)\<close>

lemma first_of_sort_key:
  "(case sort_key f xs of [] \<Rightarrow> None | c # _ \<Rightarrow> Some c) = None \<longleftrightarrow> xs = []"
  by (cases "sort_key f xs") (auto simp: sort_key_def[symmetric] dest: arg_cong[where f = length])

lemma first_of_sort_key_mem:
  assumes "(case sort_key f xs of [] \<Rightarrow> None | c # _ \<Rightarrow> Some c) = Some c"
  shows "c \<in> set xs"
proof -
  from assms obtain cs where "sort_key f xs = c # cs" by (auto split: list.splits)
  then have "c \<in> set (sort_key f xs)" by simp
  then show ?thesis by simp
qed

lemma find_private_None:
  "find_private_conversation d a b = None
     \<longleftrightarrow> (\<forall>c\<in>set (conversations d). \<not> private_match d a b c)"
  by (simp add: find_private_conversation_def first_of_sort_key filter_empty_conv)

lemma find_private_Some:
  "find_private_conversation d a b = Some c
     \<Longrightarrow> c \<in> set (conversations d) \<and> private_match d a b c"
  using first_of_sort_key_mem[of c_id "filter (private_match d a b) (conversations d)" c]
  by (simp add: find_private_conversation_def)

lemma active_rows_distinct:
  assumes "distinct (map (\<lambda>m. (m_conversation_id m, m_user_id m)) rows)"
  shows "distinct (map m_user_id (filter (\<lambda>m. m_conversation_id m = conv \<and> P m) rows))"
proof -
  from assms have d: "distinct rows"
    and i: "inj_on (\<lambda>m. (m_conversation_id m, m_user_id m)) (set rows)"
    by (simp_all add: distinct_map)
  have "inj_on m_user_id (set (filter (\<lambda>m. m_conversation_id m = conv \<and> P m) rows))"
    using i by (auto simp: inj_on_def)
  with d show ?thesis by (simp add: distinct_map)
qed

lemma active_count_card:
  assumes "db_wf d"
  shows "active_member_count d conv = card (active_members d conv)"
proof -
  from assms have "distinct (map (\<lambda>m. (m_conversation_id m, m_user_id m)) (conversation_members d))"
    by (simp add: db_wf_def)
  from active_rows_distinct[OF this, of conv "\<lambda>m. left_at m = None"]
  show ?thesis
    by (simp add: active_member_count_def active_members_def distinct_card
        del: set_map)
qed

lemma member_row_exists_active:
  assumes wf: "db_wf d" and c: "c \<in> set (conversations d)" "conversation_type c = ''private''"
    and row: "member_row_exists d (c_id c) u"
  shows "u \<in> active_members d (c_id c)"
proof -
  from row obtain m where m: "m \<in> set (conversation_members d)"
    "m_conversation_id m = c_id c" "m_user_id m = u"
    by (auto simp: member_row_exists_def list_ex_iff)
  with wf c have "left_at m = None" by (auto simp: db_wf_def)
  with m show ?thesis by (force simp: active_members_def)
qed

lemma active_member_row_exists:
  "u \<in> active_members d conv \<Longrightarrow> member_row_exists d conv u"
  by (auto simp: active_members_def member_row_exists_def list_ex_iff)

lemma private_match_iff:
  assumes wf: "db_wf d" and ab: "a \<noteq> b" and c: "c \<in> set (conversations d)"
  shows "private_match d a b c \<longleftrightarrow> private_conversation_of d a b c"
proof
  assume pm: "private_match d a b c"
  then have ty: "conversation_type c = ''private''"
    and ra: "member_row_exists d (c_id c) a" and rb: "member_row_exists d (c_id c) b"
    and n: "active_member_count d (c_id c) = 2"
    by (simp_all add: private_match_def)
  from member_row_exists_active[OF wf c ty ra] member_row_exists_active[OF wf c ty rb]
  have sub: "{a, b} \<subseteq> active_members d (c_id c)" by simp
  have fin: "finite (active_members d (c_id c))" by (simp add: active_members_def)
  from n active_count_card[OF wf] have "card (active_members d (c_id c)) = 2" by simp
  moreover from ab have "card {a, b} = 2" by simp
  ultimately have "{a, b} = active_members d (c_id c)"
    using sub fin by (metis card_subset_eq)
  with c ty show "private_conversation_of d a b c" by (simp add: private_conversation_of_def)
next
  assume pc: "private_conversation_of d a b c"
  then have ty: "conversation_type c = ''private''" and am: "active_members d (c_id c) = {a, b}"
    by (simp_all add: private_conversation_of_def)
  from am have "a \<in> active_members d (c_id c)" "b \<in> active_members d (c_id c)" by simp_all
  then have "member_row_exists d (c_id c) a" "member_row_exists d (c_id c) b"
    by (simp_all add: active_member_row_exists)
  moreover from am ab active_count_card[OF wf, of "c_id c"]
  have "active_member_count d (c_id c) = 2" by simp
  ultimately show "private_match d a b c" using ty by (simp add: private_match_def)
qed

lemma createPrivateConversation_ok:
  assumes fresh: "generated_fresh e d" and ab: "a \<noteq> b"
  shows "createPrivateConversation e d a b =
     (Inr (gen_id e 0, True),
      d\<lparr>conversations := conversations d @ [new_conversation (gen_id e 0) ''private'' None (now e)],
        conversation_members := conversation_members d
           @ [new_member (gen_id e 1) (gen_id e 0) a ''member'' (now e),
              new_member (gen_id e 2) (gen_id e 0) b ''member'' (now e)]\<rparr>)"
proof -
  from fresh have inj: "inj (gen_id e)" and nc: "\<not> conversation_exists d (gen_id e 0)"
    and rows: "\<forall>m\<in>set (conversation_members d).
          m_conversation_id m \<noteq> gen_id e 0 \<and> (\<forall>k. m_id m \<noteq> gen_id e k)"
    by (simp_all add: generated_fresh_def)
  from inj have ne: "gen_id e 1 \<noteq> gen_id e 2" by (simp add: inj_eq)
  show ?thesis
    using nc rows ne ab
    by (auto simp: createPrivateConversation_def insert_conversation_def insert_member_def
        conversation_exists_def member_row_exists_def name_fits_def new_conversation_def
        new_member_def list_ex_iff Let_def)
qed

text \<open>Creating a private conversation keeps the stored data well formed.\<close>

lemma db_wf_createPrivateConversation:
  assumes wf: "db_wf d" and fresh: "generated_fresh e d" and ab: "a \<noteq> b"
  shows "db_wf (snd (createPrivateConversation e d a b))"
proof -
  from fresh have nc: "\<not> conversation_exists d (gen_id e 0)"
    and rows: "\<forall>m\<in>set (conversation_members d). m_conversation_id m \<noteq> gen_id e 0"
    by (simp_all add: generated_fresh_def)
  from nc have ids: "\<forall>c\<in>set (conversations d). c_id c \<noteq> gen_id e 0"
    by (auto simp: conversation_exists_def list_ex_iff)
  from wf rows ids ab show ?thesis
    unfolding createPrivateConversation_ok[OF fresh ab]
    by (auto simp: db_wf_def new_member_def new_conversation_def)
qed

lemma getOrCreate_lock_failed:
  assumes "a \<noteq> b" and "find_private_conversation d a b = None"
    and "\<not> lock_acquired (conv_lock e) 30"
  shows "getOrCreatePrivateConversation e d a b = (Inl CreateLockFailed, d)"
  using assms by (simp add: getOrCreatePrivateConversation_def)

text \<open>
  The transaction of \<open>createPrivateConversation\<close> is all or nothing: whenever the
  function, or \<open>getOrCreatePrivateConversation\<close>, returns an error, the database is the
  one it was given.
\<close>

lemma createPrivateConversation_rollback:
  "createPrivateConversation e d a b = (Inl err, d') \<Longrightarrow> d' = d"
  by (auto simp: createPrivateConversation_def Let_def split: option.splits)

lemma getOrCreate_rollback:
  "getOrCreatePrivateConversation e d a b = (Inl err, d') \<Longrightarrow> d' = d"
  by (auto simp: getOrCreatePrivateConversation_def
      dest: createPrivateConversation_rollback split: if_splits option.splits)

text \<open>
  C3 (amended). For distinct users \<open>a\<close> and \<open>b\<close>: when a private conversation whose
  active-member set is exactly \<open>{a, b}\<close> exists, \<open>getOrCreatePrivateConversation\<close>
  returns such a conversation with \<open>created = false\<close> and writes nothing. Otherwise, when
  the creation lock is granted within its 30 attempts, it inserts exactly one
  conversation of type \<open>private\<close> and exactly two member rows with role \<open>member\<close>, one
  for \<open>a\<close> and one for \<open>b\<close>, and returns the new conversation with \<open>created = true\<close>;
  when the lock is not granted it returns the lock error and inserts nothing. The
  inserts are one transaction: whenever the function returns an error, the database is
  unchanged. The stored data is assumed well formed (\<open>db_wf\<close>) and, for the inserts,
  the generated identifiers new.
\<close>

theorem C3_resolve_or_create:
  assumes "a \<noteq> b" and "db_wf d"
  shows "((\<exists>c. private_conversation_of d a b c) \<longrightarrow>
            (\<exists>c. private_conversation_of d a b c \<and>
                 getOrCreatePrivateConversation e d a b = (Inr (c_id c, False), d)))
     \<and> (\<not> (\<exists>c. private_conversation_of d a b c) \<longrightarrow> lock_acquired (conv_lock e) 30
          \<longrightarrow> generated_fresh e d \<longrightarrow>
          getOrCreatePrivateConversation e d a b =
            (Inr (gen_id e 0, True),
             d\<lparr>conversations := conversations d
                  @ [new_conversation (gen_id e 0) ''private'' None (now e)],
               conversation_members := conversation_members d
                  @ [new_member (gen_id e 1) (gen_id e 0) a ''member'' (now e),
                     new_member (gen_id e 2) (gen_id e 0) b ''member'' (now e)]\<rparr>))
     \<and> (\<not> (\<exists>c. private_conversation_of d a b c) \<longrightarrow> \<not> lock_acquired (conv_lock e) 30
          \<longrightarrow> getOrCreatePrivateConversation e d a b = (Inl CreateLockFailed, d))
     \<and> (\<forall>err d'. getOrCreatePrivateConversation e d a b = (Inl err, d') \<longrightarrow> d' = d)"
proof (intro conjI impI allI)
  assume "\<exists>c. private_conversation_of d a b c"
  then obtain c0 where c0: "private_conversation_of d a b c0" ..
  then have in0: "c0 \<in> set (conversations d)" by (simp add: private_conversation_of_def)
  from c0 private_match_iff[OF assms(2,1) in0] have "private_match d a b c0" by simp
  with in0 have "find_private_conversation d a b \<noteq> None"
    by (auto simp: find_private_None)
  then obtain c where f: "find_private_conversation d a b = Some c" by auto
  from find_private_Some[OF f] private_match_iff[OF assms(2,1)]
  have "private_conversation_of d a b c" by blast
  moreover from f assms(1)
  have "getOrCreatePrivateConversation e d a b = (Inr (c_id c, False), d)"
    by (simp add: getOrCreatePrivateConversation_def)
  ultimately show "\<exists>c. private_conversation_of d a b c \<and>
                 getOrCreatePrivateConversation e d a b = (Inr (c_id c, False), d)" by blast
next
  assume none: "\<not> (\<exists>c. private_conversation_of d a b c)"
    and lock: "lock_acquired (conv_lock e) 30" and fresh: "generated_fresh e d"
  from none private_match_iff[OF assms(2,1)]
  have "find_private_conversation d a b = None"
    by (auto simp: find_private_None)
  with lock assms(1) createPrivateConversation_ok[OF fresh assms(1)]
  show "getOrCreatePrivateConversation e d a b =
            (Inr (gen_id e 0, True),
             d\<lparr>conversations := conversations d
                  @ [new_conversation (gen_id e 0) ''private'' None (now e)],
               conversation_members := conversation_members d
                  @ [new_member (gen_id e 1) (gen_id e 0) a ''member'' (now e),
                     new_member (gen_id e 2) (gen_id e 0) b ''member'' (now e)]\<rparr>)"
    by (simp add: getOrCreatePrivateConversation_def)
next
  assume none: "\<not> (\<exists>c. private_conversation_of d a b c)"
    and nolock: "\<not> lock_acquired (conv_lock e) 30"
  from none private_match_iff[OF assms(2,1)]
  have "find_private_conversation d a b = None"
    by (auto simp: find_private_None)
  from getOrCreate_lock_failed[OF assms(1) this nolock]
  show "getOrCreatePrivateConversation e d a b = (Inl CreateLockFailed, d)" .
next
  fix err d'
  assume "getOrCreatePrivateConversation e d a b = (Inl err, d')"
  then show "d' = d" by (rule getOrCreate_rollback)
qed

theorem C3_resolve_or_create_witness:
  "getOrCreatePrivateConversation (env_at 5) db_private 1 2 = (Inr (3, False), db_private)
   \<and> fst (getOrCreatePrivateConversation (env_at 5) db_private 1 4) = Inr (100, True)
   \<and> map (\<lambda>c. (c_id c, conversation_type c))
        (conversations (snd (getOrCreatePrivateConversation (env_at 5) db_private 1 4)))
     = [(3, ''private''), (100, ''private'')]
   \<and> map (\<lambda>m. (m_id m, m_conversation_id m, m_user_id m, m_role m))
        (conversation_members (snd (getOrCreatePrivateConversation (env_at 5) db_private 1 4)))
     = [(11, 3, 1, ''member''), (12, 3, 2, ''member''),
        (101, 100, 1, ''member''), (102, 100, 4, ''member'')]
   \<and> getOrCreatePrivateConversation env_locked db_private 1 4
       = (Inl CreateLockFailed, db_private)
   \<and> getOrCreatePrivateConversation env_clash db_private 1 4
       = (Inl ConstraintViolation, db_private)"
proof -
  have wf: "db_wf db_private"
    by (simp add: db_wf_def db_private_def new_member_def new_conversation_def)
  have fresh: "generated_fresh (env_at 5) db_private"
    by (simp add: generated_fresh_def env_at_def db_private_def conversation_exists_def
        new_conversation_def new_member_def inj_def)
  have lock: "lock_acquired (conv_lock (env_at 5)) 30"
    by (simp add: env_at_def lock_acquired_const)
  have nolock: "\<not> lock_acquired (conv_lock env_locked) 30"
    by (simp add: env_locked_def lock_acquired_const)
  have ex12: "private_conversation_of db_private 1 2 (new_conversation 3 ''private'' None 0)"
    by (auto simp: private_conversation_of_def active_members_def db_private_def
        new_member_def new_conversation_def)
  have no14: "\<not> (\<exists>c. private_conversation_of db_private 1 4 c)"
    by (auto simp: private_conversation_of_def active_members_def db_private_def
        new_member_def new_conversation_def)
  have ne: "(1::nat) \<noteq> 2" "(1::nat) \<noteq> 4" by simp_all
  from C3_resolve_or_create[OF ne(1) wf, of "env_at 5"] ex12
  obtain c where c: "private_conversation_of db_private 1 2 c"
    and r12: "getOrCreatePrivateConversation (env_at 5) db_private 1 2 = (Inr (c_id c, False), db_private)"
    by blast
  from c have "c_id c = 3"
    by (auto simp: private_conversation_of_def db_private_def new_conversation_def)
  with r12 have a: "getOrCreatePrivateConversation (env_at 5) db_private 1 2 = (Inr (3, False), db_private)"
    by simp
  from C3_resolve_or_create[OF ne(2) wf, of "env_at 5"] no14 lock fresh
  have r14: "getOrCreatePrivateConversation (env_at 5) db_private 1 4 =
            (Inr (gen_id (env_at 5) 0, True),
             db_private\<lparr>conversations := conversations db_private
                  @ [new_conversation (gen_id (env_at 5) 0) ''private'' None (now (env_at 5))],
               conversation_members := conversation_members db_private
                  @ [new_member (gen_id (env_at 5) 1) (gen_id (env_at 5) 0) 1 ''member'' (now (env_at 5)),
                     new_member (gen_id (env_at 5) 2) (gen_id (env_at 5) 0) 4 ''member'' (now (env_at 5))]\<rparr>)"
    by blast
  from C3_resolve_or_create[OF ne(2) wf, of env_locked] no14 nolock
  have l14: "getOrCreatePrivateConversation env_locked db_private 1 4
       = (Inl CreateLockFailed, db_private)"
    by blast
  have "fst (getOrCreatePrivateConversation env_clash db_private 1 4) = Inl ConstraintViolation"
    by (simp add: getOrCreatePrivateConversation_def createPrivateConversation_def
        find_private_conversation_def private_match_def member_row_exists_def
        active_member_count_def insert_conversation_def insert_member_def
        conversation_exists_def name_fits_def new_conversation_def new_member_def
        env_clash_def db_private_def lock_acquired_const Let_def)
  then have "getOrCreatePrivateConversation env_clash db_private 1 4
       = (Inl ConstraintViolation, snd (getOrCreatePrivateConversation env_clash db_private 1 4))"
    by (metis prod.collapse)
  with C3_resolve_or_create[OF ne(2) wf, of env_clash]
  have k14: "getOrCreatePrivateConversation env_clash db_private 1 4
       = (Inl ConstraintViolation, db_private)"
    by metis
  show ?thesis
    unfolding a r14 l14 k14
    by (simp add: env_at_def db_private_def new_member_def new_conversation_def)
qed

text \<open>
  The claim as stated has the function insert whenever no such conversation exists:
  users 1 and 4 have no private conversation, the stored data is well formed and the
  generated identifiers are new, but no attempt on the creation lock succeeds, and the
  function returns the lock error and inserts nothing.
\<close>

theorem C3_counterexample:
  "find_private_conversation db_private 1 4 = None
   \<and> db_wf db_private \<and> generated_fresh env_locked db_private
   \<and> getOrCreatePrivateConversation env_locked db_private 1 4
       = (Inl CreateLockFailed, db_private)"
  by (simp add: getOrCreatePrivateConversation_def find_private_conversation_def
      private_match_def member_row_exists_def active_member_count_def db_wf_def
      generated_fresh_def conversation_exists_def env_locked_def db_private_def
      new_member_def new_conversation_def lock_acquired_const inj_def)

subsection \<open>Read marking (C4)\<close>

lemma distinct_map_eq:
  "distinct (map f xs) \<Longrightarrow> x \<in> set xs \<Longrightarrow> y \<in> set xs \<Longrightarrow> f x = f y \<Longrightarrow> x = y"
  by (auto simp: distinct_map inj_on_def)

lemma find_message_mem:
  "find_message d i = Some m \<Longrightarrow> m \<in> set (messages d) \<and> msg_id m = i"
  by (auto simp: find_message_def find_Some_iff)

lemma later_message_iff:
  assumes pk: "distinct (map msg_id (messages d))" and f: "find_message d l = Some m"
  shows "list_ex (\<lambda>m'. Some (msg_id m') = Some l \<and> msg_created_at m' > t) (messages d)
           \<longleftrightarrow> msg_created_at m > t"
proof -
  from find_message_mem[OF f] have m: "m \<in> set (messages d)" "msg_id m = l" by simp_all
  have u: "\<And>m'. m' \<in> set (messages d) \<Longrightarrow> msg_id m' = l \<Longrightarrow> m' = m"
    using distinct_map_eq[OF pk _ m(1)] m(2) by simp
  show ?thesis
  proof
    assume "list_ex (\<lambda>m'. Some (msg_id m') = Some l \<and> msg_created_at m' > t) (messages d)"
    then obtain m' where "m' \<in> set (messages d)" "msg_id m' = l" "msg_created_at m' > t"
      by (auto simp: list_ex_iff)
    with u[of m'] show "msg_created_at m > t" by simp
  next
    assume "msg_created_at m > t"
    with m show "list_ex (\<lambda>m'. Some (msg_id m') = Some l \<and> msg_created_at m' > t) (messages d)"
      unfolding list_ex_iff by blast
  qed
qed

lemma read_guard_row:
  assumes uniq: "distinct (map (\<lambda>m. (m_conversation_id m, m_user_id m)) (conversation_members d))"
    and row: "cm \<in> set (conversation_members d)" "m_conversation_id cm = conv" "m_user_id cm = u"
    and r: "r \<in> set (conversation_members d)"
  shows "read_guard d conv u t r \<longleftrightarrow> (r = cm \<and> read_guard d conv u t cm)"
proof -
  have "m_conversation_id r = conv \<and> m_user_id r = u \<Longrightarrow> r = cm"
    using distinct_map_eq[OF uniq r row(1)] row(2,3) by simp
  then show ?thesis by (auto simp: read_guard_def)
qed

lemma MarkAsRead_rows:
  assumes uniq: "distinct (map (\<lambda>m. (m_conversation_id m, m_user_id m)) (conversation_members d))"
    and row: "cm \<in> set (conversation_members d)" "m_conversation_id cm = conv" "m_user_id cm = u"
  shows "map (\<lambda>r. if read_guard d conv u t r then f r else r) (conversation_members d)
           = (if read_guard d conv u t cm
              then map (\<lambda>r. if r = cm then f cm else r) (conversation_members d)
              else conversation_members d)"
    and "(0 < length (filter (read_guard d conv u t) (conversation_members d)))
           = read_guard d conv u t cm"
proof -
  note g = read_guard_row[OF uniq row]
  show "map (\<lambda>r. if read_guard d conv u t r then f r else r) (conversation_members d)
           = (if read_guard d conv u t cm
              then map (\<lambda>r. if r = cm then f cm else r) (conversation_members d)
              else conversation_members d)"
  proof (cases "read_guard d conv u t cm")
    case True
    with g have "\<And>r. r \<in> set (conversation_members d) \<Longrightarrow> read_guard d conv u t r = (r = cm)"
      by blast
    with True show ?thesis by (auto intro: map_cong)
  next
    case False
    with g have "\<And>r. r \<in> set (conversation_members d) \<Longrightarrow> \<not> read_guard d conv u t r"
      by blast
    with False show ?thesis by (simp add: map_idI)
  qed
  show "(0 < length (filter (read_guard d conv u t) (conversation_members d)))
           = read_guard d conv u t cm"
  proof
    assume "0 < length (filter (read_guard d conv u t) (conversation_members d))"
    then obtain r where "r \<in> set (conversation_members d)" "read_guard d conv u t r"
      by (auto simp: filter_empty_conv)
    with g show "read_guard d conv u t cm" by blast
  next
    assume "read_guard d conv u t cm"
    with row(1) have "filter (read_guard d conv u t) (conversation_members d) \<noteq> []"
      by (auto simp: filter_empty_conv)
    then show "0 < length (filter (read_guard d conv u t) (conversation_members d))" by simp
  qed
qed

text \<open>
  C4. For every \<open>MarkAsRead(user, conv, messageId)\<close> whose target message exists, the
  member row of the user in the conversation is updated (\<open>unread_count\<close> 0,
  \<open>last_read_message_id\<close> the target, \<open>last_read_at\<close> now) exactly when its current
  \<open>last_read_message_id\<close> is null or the message it points to was created not later
  than the target; then one \<open>unread_count_update\<close> with count 0 is sent to the user.
  When the condition fails the database is unchanged and nothing is sent. No other row
  changes. The row is the one the unique key \<open>(conversation_id, user_id)\<close> allows, its
  pointer names a stored message (messages are never deleted, and have unique ids), and
  the unread notifier is set, as the composition root sets it.
\<close>

theorem C4_mark_read:
  assumes tgt: "find_message d messageID = Some target"
    and row: "cm \<in> set (conversation_members d)" "m_conversation_id cm = conv" "m_user_id cm = u"
    and uniq: "distinct (map (\<lambda>m. (m_conversation_id m, m_user_id m)) (conversation_members d))"
    and pk: "distinct (map msg_id (messages d))"
    and ptr: "\<forall>l. last_read_message_id cm = Some l \<longrightarrow> find_message d l \<noteq> None"
    and wired: "unreadNotifier s"
  shows "MarkAsRead s e d u conv messageID =
     (if last_read_message_id cm = None \<or>
         (\<exists>l m. last_read_message_id cm = Some l \<and> find_message d l = Some m
                \<and> msg_created_at m \<le> msg_created_at target)
      then (Inr (),
            d\<lparr>conversation_members :=
                 map (\<lambda>r. if r = cm
                           then cm\<lparr>unread_count := 0, last_read_message_id := Some messageID,
                                  last_read_at := Some (now e)\<rparr>
                           else r) (conversation_members d)\<rparr>,
            [UnreadCountUpdate u conv 0])
      else (Inr (), d, []))"
proof -
  let ?t = "msg_created_at target"
  let ?cond = "last_read_message_id cm = None \<or>
         (\<exists>l m. last_read_message_id cm = Some l \<and> find_message d l = Some m
                \<and> msg_created_at m \<le> ?t)"
  have g: "read_guard d conv u ?t cm = ?cond"
  proof (cases "last_read_message_id cm")
    case None
    with row show ?thesis by (simp add: read_guard_def)
  next
    case (Some l)
    with ptr obtain m where f: "find_message d l = Some m" by auto
    from later_message_iff[OF pk f, of ?t] Some f row show ?thesis
      by (simp add: read_guard_def not_less)
  qed
  note rows = MarkAsRead_rows[OF uniq row, of ?t]
  show ?thesis
  proof (cases ?cond)
    case True
    with g have rg: "read_guard d conv u ?t cm" by simp
    from True tgt wired rows(2) rg rows(1)[of "mark_row messageID (now e)"]
    show ?thesis by (simp add: MarkAsRead_def Let_def mark_row_def)
  next
    case False
    with g have rg: "\<not> read_guard d conv u ?t cm" by simp
    from False tgt rows(2) rg rows(1)[of "mark_row messageID (now e)"]
    show ?thesis by (simp add: MarkAsRead_def Let_def)
  qed
qed

theorem C4_mark_read_witness:
  "MarkAsRead svc_off (env_at 9) db_read 2 3 41 = (Inr (), db_read, [])
   \<and> snd (snd (MarkAsRead svc_off (env_at 9) db_read 2 3 42)) = [UnreadCountUpdate 2 3 0]
   \<and> map (\<lambda>m. (m_user_id m, unread_count m, last_read_message_id m, last_read_at m))
        (conversation_members (fst (snd (MarkAsRead svc_off (env_at 9) db_read 2 3 42))))
     = [(1, 0, None, None), (2, 0, Some 42, Some 9)]"
proof -
  let ?cm = "(new_member 12 3 2 ''member'' 0)\<lparr>unread_count := 3,
               last_read_message_id := Some 42, last_read_at := Some 2\<rparr>"
  let ?m41 = "(sent_message 3 ''text'' (Some (runes ''one'')) 1)\<lparr>msg_id := 41\<rparr>"
  let ?m42 = "(sent_message 3 ''text'' (Some (runes ''two'')) 2)\<lparr>msg_id := 42\<rparr>"
  have f41: "find_message db_read 41 = Some ?m41" and f42: "find_message db_read 42 = Some ?m42"
    by (simp_all add: find_message_def db_read_def db_private_def sent_message_def)
  have row: "?cm \<in> set (conversation_members db_read)" "m_conversation_id ?cm = 3"
      "m_user_id ?cm = 2"
    by (simp_all add: db_read_def db_private_def new_member_def)
  have uniq: "distinct (map (\<lambda>m. (m_conversation_id m, m_user_id m)) (conversation_members db_read))"
    by (simp add: db_read_def db_private_def new_member_def)
  have pk: "distinct (map msg_id (messages db_read))"
    by (simp add: db_read_def db_private_def sent_message_def)
  have ptr: "\<forall>l. last_read_message_id ?cm = Some l \<longrightarrow> find_message db_read l \<noteq> None"
    using f42 by (simp add: new_member_def)
  have wired: "unreadNotifier svc_off" by (simp add: svc_off_def)
  note a = C4_mark_read[OF f41 row uniq pk ptr wired, of "env_at 9"]
  note b = C4_mark_read[OF f42 row uniq pk ptr wired, of "env_at 9"]
  have a': "MarkAsRead svc_off (env_at 9) db_read 2 3 41 = (Inr (), db_read, [])"
    using a f42 by (simp add: new_member_def sent_message_def)
  have b': "MarkAsRead svc_off (env_at 9) db_read 2 3 42 =
      (Inr (),
       db_read\<lparr>conversation_members :=
          map (\<lambda>r. if r = ?cm
                    then ?cm\<lparr>unread_count := 0, last_read_message_id := Some 42,
                            last_read_at := Some (now (env_at 9))\<rparr>
                    else r) (conversation_members db_read)\<rparr>,
       [UnreadCountUpdate 2 3 0])"
    using b f42 by (simp add: new_member_def sent_message_def)
  show ?thesis
    unfolding a' b'
    by (simp add: db_read_def db_private_def new_member_def env_at_def)
qed

subsection \<open>The device cap (C7)\<close>

lemma Register_devs:
  "(case fmlookup (if fmlookup (Clients h) u = None then fmupd u fmempty (Clients h) else Clients h) u of
      None \<Rightarrow> fmempty | Some ds \<Rightarrow> ds) = user_devices h u"
  by (auto simp: user_devices_def split: option.splits)

lemma Register_rejected:
  assumes "int (fcard (fmdom (user_devices h (UserID c)))) \<ge> MaxConnectionsPerUser h"
  shows "snd (Register h c) =
           [WriteTextMessage (Frame ''error'' [(''code'', ''too_many_devices''),
                                               (''message'', max_devices_message h)]),
            WriteCloseMessage CloseNormalClosure (max_devices_message h), ConnClose]"
    and "user_devices (fst (Register h c)) u = user_devices h u"
    and "MaxConnectionsPerUser (fst (Register h c)) = MaxConnectionsPerUser h"
  using assms
  by (auto simp: Register_def Let_def Register_devs user_devices_def split: option.splits)

lemma Register_accepted:
  assumes "int (fcard (fmdom (user_devices h (UserID c)))) < MaxConnectionsPerUser h"
  shows "user_devices (fst (Register h c)) u
           = (if u = UserID c then fmupd (ID c) c (user_devices h u) else user_devices h u)"
    and "MaxConnectionsPerUser (fst (Register h c)) = MaxConnectionsPerUser h"
  using assms
  by (auto simp: Register_def Let_def Register_devs user_devices_def split: option.splits)

lemma register_all_count:
  assumes "\<forall>c\<in>set cs. UserID c = u" and "distinct (map ID cs)"
    and "\<forall>c\<in>set cs. ID c |\<notin>| fmdom (user_devices h u)"
    and "int (fcard (fmdom (user_devices h u))) + int (length cs) \<le> MaxConnectionsPerUser h"
  shows "fcard (fmdom (user_devices (register_all h cs) u))
           = fcard (fmdom (user_devices h u)) + length cs
         \<and> MaxConnectionsPerUser (register_all h cs) = MaxConnectionsPerUser h"
  using assms
proof (induction cs arbitrary: h)
  case Nil
  then show ?case by simp
next
  case (Cons c cs)
  from Cons.prems have uc: "UserID c = u" by simp
  from Cons.prems uc have below:
    "int (fcard (fmdom (user_devices h (UserID c)))) < MaxConnectionsPerUser h" by simp
  let ?h = "fst (Register h c)"
  have dv: "user_devices ?h u = fmupd (ID c) c (user_devices h u)"
    using Register_accepted(1)[OF below, of u] uc by simp
  have mx: "MaxConnectionsPerUser ?h = MaxConnectionsPerUser h"
    by (rule Register_accepted(2)[OF below])
  from Cons.prems have new: "ID c |\<notin>| fmdom (user_devices h u)" by simp
  have cnt: "fcard (fmdom (user_devices ?h u)) = Suc (fcard (fmdom (user_devices h u)))"
    using new by (simp add: dv fcard_finsert_disjoint)
  have p1: "\<forall>c\<in>set cs. UserID c = u" using Cons.prems by simp
  have p2: "distinct (map ID cs)" using Cons.prems by simp
  have p3: "\<forall>c'\<in>set cs. ID c' |\<notin>| fmdom (user_devices ?h u)"
  proof
    fix c' assume c': "c' \<in> set cs"
    with Cons.prems(2) have "ID c' \<noteq> ID c" by (metis distinct.simps(2) image_eqI list.simps(9) set_map)
    moreover from c' Cons.prems(3) have "ID c' |\<notin>| fmdom (user_devices h u)" by simp
    ultimately show "ID c' |\<notin>| fmdom (user_devices ?h u)" by (simp add: dv)
  qed
  have p4: "int (fcard (fmdom (user_devices ?h u))) + int (length cs) \<le> MaxConnectionsPerUser ?h"
    using Cons.prems by (simp add: cnt mx)
  from Cons.IH[OF p1 p2 p3 p4] cnt mx show ?case by simp
qed

lemma full_hub_count:
  "fcard (fmdom (user_devices full_hub 1)) = 18 \<and> MaxConnectionsPerUser full_hub = 18"
proof -
  have "fcard (fmdom (user_devices (register_all (NewHub Map.empty) (map (device 1) [1..<19])) 1))
           = fcard (fmdom (user_devices (NewHub Map.empty) 1)) + length (map (device 1) [1..<19])
         \<and> MaxConnectionsPerUser (register_all (NewHub Map.empty) (map (device 1) [1..<19]))
           = MaxConnectionsPerUser (NewHub Map.empty)"
    by (rule register_all_count)
       (auto simp: device_def NewHub_def user_devices_def distinct_map inj_on_def comp_def)
  then show ?thesis by (simp add: full_hub_def NewHub_def user_devices_def)
qed

text \<open>
  C7. When the user of a new session already has at least \<open>MaxConnectionsPerUser\<close>
  registered devices (18 in a hub made by \<open>NewHub\<close>), \<open>Register\<close> writes on the new socket
  a text frame of type \<open>error\<close> with code \<open>too_many_devices\<close>, then a close frame (normal
  closure) whose reason is the frame's message, \<open>Maximum n devices allowed\<close>, then
  closes the socket; the devices of every user are what they were, so the new session
  is not in the registry. Below the cap the session is inserted under its id and the
  other entries of the registry are kept.
\<close>

theorem C7_register:
  "(int (fcard (fmdom (user_devices h (UserID c)))) \<ge> MaxConnectionsPerUser h \<longrightarrow>
      snd (Register h c) =
        [WriteTextMessage (Frame ''error'' [(''code'', ''too_many_devices''),
                                            (''message'', max_devices_message h)]),
         WriteCloseMessage CloseNormalClosure (max_devices_message h), ConnClose]
      \<and> (\<forall>u. user_devices (fst (Register h c)) u = user_devices h u))
   \<and> (int (fcard (fmdom (user_devices h (UserID c)))) < MaxConnectionsPerUser h \<longrightarrow>
      fmlookup (user_devices (fst (Register h c)) (UserID c)) (ID c) = Some c
      \<and> (\<forall>u i. (u, i) \<noteq> (UserID c, ID c) \<longrightarrow>
            fmlookup (user_devices (fst (Register h c)) u) i = fmlookup (user_devices h u) i))
   \<and> MaxConnectionsPerUser (NewHub st) = 18"
proof (intro conjI impI allI)
  assume full: "int (fcard (fmdom (user_devices h (UserID c)))) \<ge> MaxConnectionsPerUser h"
  from Register_rejected(1)[OF full]
  show "snd (Register h c) =
        [WriteTextMessage (Frame ''error'' [(''code'', ''too_many_devices''),
                                            (''message'', max_devices_message h)]),
         WriteCloseMessage CloseNormalClosure (max_devices_message h), ConnClose]" .
  fix u
  from Register_rejected(2)[OF full]
  show "user_devices (fst (Register h c)) u = user_devices h u" .
next
  assume below: "int (fcard (fmdom (user_devices h (UserID c)))) < MaxConnectionsPerUser h"
  from Register_accepted(1)[OF below, of "UserID c"]
  show "fmlookup (user_devices (fst (Register h c)) (UserID c)) (ID c) = Some c" by simp
next
  fix u i
  assume below: "int (fcard (fmdom (user_devices h (UserID c)))) < MaxConnectionsPerUser h"
    and ne: "(u, i) \<noteq> (UserID c, ID c)"
  from Register_accepted(1)[OF below, of u] ne
  show "fmlookup (user_devices (fst (Register h c)) u) i = fmlookup (user_devices h u) i"
    by auto
next
  show "MaxConnectionsPerUser (NewHub st) = 18" by (simp add: NewHub_def)
qed

theorem C7_register_witness:
  "snd (Register full_hub (device 1 19)) =
     [WriteTextMessage (Frame ''error'' [(''code'', ''too_many_devices''),
                                         (''message'', ''Maximum 18 devices allowed'')]),
      WriteCloseMessage 1000 ''Maximum 18 devices allowed'', ConnClose]
   \<and> user_devices (fst (Register full_hub (device 1 19))) 1 = user_devices full_hub 1
   \<and> fmlookup (user_devices (fst (Register (NewHub Map.empty) (device 1 19))) 1) 19
       = Some (device 1 19)"
proof -
  have full: "int (fcard (fmdom (user_devices full_hub (UserID (device 1 19)))))
                \<ge> MaxConnectionsPerUser full_hub"
    using full_hub_count by (simp add: device_def)
  have below: "int (fcard (fmdom (user_devices (NewHub Map.empty) (UserID (device 1 19)))))
                < MaxConnectionsPerUser (NewHub Map.empty)"
    by (simp add: NewHub_def user_devices_def fcard_fempty)
  have msg: "max_devices_message full_hub = ''Maximum 18 devices allowed''"
    using full_hub_count by (simp add: max_devices_message_def fmt_d_def digit_char_def)
  from C7_register[of full_hub "device 1 19"] full
  have a: "snd (Register full_hub (device 1 19)) =
        [WriteTextMessage (Frame ''error'' [(''code'', ''too_many_devices''),
                                            (''message'', max_devices_message full_hub)]),
         WriteCloseMessage CloseNormalClosure (max_devices_message full_hub), ConnClose]"
    and b: "user_devices (fst (Register full_hub (device 1 19))) 1 = user_devices full_hub 1"
    by blast+
  from C7_register[of "NewHub Map.empty" "device 1 19"] below
  have c: "fmlookup (user_devices (fst (Register (NewHub Map.empty) (device 1 19)))
              (UserID (device 1 19))) (ID (device 1 19)) = Some (device 1 19)"
    by blast
  from a b c msg show ?thesis by (simp add: CloseNormalClosure_def device_def)
qed

end
